theory Spec2Isabelle
  imports Complex_Main "HOL-Library.Word"
begin

section \<open>JavaScript values\<close>

text \<open>
  A JavaScript string is a sequence of UTF-16 code units; the currency pattern of
  \<open>parseCurrency\<close> names code units beyond Latin-1 and \<open>encodeURIComponent\<close> depends on
  surrogates, so strings are lists of code units (natural numbers below 65536).
  \<open>js\<close> embeds an ASCII literal.

  A JavaScript number is modelled by the real number it denotes, and arithmetic is exact:
  the rounding of IEEE-754 doubles is modelled only where sums are compared with each
  other (the category totals of the optimizer, see the section on double precision);
  \<open>NaN\<close> and the infinities are outside the model. Where the source can produce \<open>NaN\<close> or
  an infinity from finite operands (a failed \<open>parseFloat\<close>, a division by zero) the model
  writes the case out.
\<close>

type_synonym jsstring = "nat list"

definition js :: "string \<Rightarrow> jsstring" where
  "js s = map of_char s"

text \<open>
  The draft itinerary is parsed JSON, so a \<open>cost\<close> field holds whatever the JSON held:
  a string, a number, or nothing at all.
\<close>

datatype jsval = JUndefined | JString jsstring | JNumber real

datatype error = TypeError | RangeError | URIError | Error jsstring

section \<open>Currency utility (budget module)\<close>

text \<open>
  \<open>String.prototype.trim\<close> removes white space and line terminators at both ends;
  \<open>parseFloat\<close> skips the same code units at the start.
\<close>

definition isWhiteSpace :: "nat \<Rightarrow> bool" where
  "isWhiteSpace c \<longleftrightarrow>
     c \<in> {9, 10, 11, 12, 13, 32, 160, 5760, 8232, 8233, 8239, 8287, 12288, 65279}
     \<or> (8192 \<le> c \<and> c \<le> 8202)"

definition trim :: "jsstring \<Rightarrow> jsstring" where
  "trim s = rev (dropWhile isWhiteSpace (rev (dropWhile isWhiteSpace s)))"

definition isDigit :: "nat \<Rightarrow> bool" where
  "isDigit c \<longleftrightarrow> 48 \<le> c \<and> c \<le> 57"

definition digitsValue :: "jsstring \<Rightarrow> nat" where
  "digitsValue ds = foldl (\<lambda>acc c. acc * 10 + (c - 48)) 0 ds"

definition scale10 :: "real \<Rightarrow> int \<Rightarrow> real" where
  "scale10 m e = (if 0 \<le> e then m * 10 ^ nat e else m / 10 ^ nat (- e))"

text \<open>
  \<open>parseFloat\<close> reads the longest prefix that is a \<open>StrDecimalLiteral\<close>: an optional sign,
  then digits with an optional fraction (or a fraction alone), then an optional exponent
  part, which counts only when it has at least one digit. No such prefix gives \<open>NaN\<close>,
  here \<open>None\<close>. The source's \<open>parseFloat\<close> also reads the literal \<open>Infinity\<close>, as an infinite
  number; infinities are outside the model, which gives \<open>None\<close> for it.
\<close>

definition signedInteger :: "jsstring \<Rightarrow> int option" where
  "signedInteger s =
     (case s of
        [] \<Rightarrow> None
      | c # r \<Rightarrow>
          if c = 43 then
            (if takeWhile isDigit r = [] then None
             else Some (int (digitsValue (takeWhile isDigit r))))
          else if c = 45 then
            (if takeWhile isDigit r = [] then None
             else Some (- int (digitsValue (takeWhile isDigit r))))
          else
            (if takeWhile isDigit s = [] then None
             else Some (int (digitsValue (takeWhile isDigit s)))))"

definition exponentPart :: "jsstring \<Rightarrow> int" where
  "exponentPart s =
     (case s of
        [] \<Rightarrow> 0
      | c # r \<Rightarrow>
          if c = 101 \<or> c = 69 then (case signedInteger r of None \<Rightarrow> 0 | Some e \<Rightarrow> e)
          else 0)"

definition unsignedDecimal :: "jsstring \<Rightarrow> real option" where
  "unsignedDecimal s =
     (let ip = takeWhile isDigit s;
          r1 = dropWhile isDigit s;
          dot = (r1 \<noteq> [] \<and> hd r1 = 46);
          fp = (if dot then takeWhile isDigit (tl r1) else []);
          r2 = (if dot then dropWhile isDigit (tl r1) else r1)
      in if ip = [] \<and> fp = [] then None
         else Some (scale10 (of_nat (digitsValue (ip @ fp)) / 10 ^ length fp)
                      (exponentPart r2)))"

definition parseFloat :: "jsstring \<Rightarrow> real option" where
  "parseFloat s =
     (case dropWhile isWhiteSpace s of
        [] \<Rightarrow> None
      | c # r \<Rightarrow>
          if c = 43 then unsignedDecimal r
          else if c = 45 then map_option uminus (unsignedDecimal r)
          else unsignedDecimal (c # r))"

text \<open>The character class of \<open>parseCurrency\<close>: dollar, comma, euro, pound, yen.\<close>

definition currencySymbols :: "nat set" where
  "currencySymbols = {36, 44, 8364, 163, 165}"

text \<open>
  \<open>parseCurrency\<close>: a falsy argument (missing, the empty string, the number zero) is 0;
  any other number has no \<open>replace\<close> method, which is a \<open>TypeError\<close>; a string is stripped
  of the currency symbols, trimmed and parsed, and a \<open>NaN\<close> result is replaced by 0.
\<close>

definition parseCurrency :: "jsval \<Rightarrow> error + real" where
  "parseCurrency v =
     (case v of
        JUndefined \<Rightarrow> Inr 0
      | JNumber n \<Rightarrow> if n = 0 then Inr 0 else Inl TypeError
      | JString s \<Rightarrow>
          if s = [] then Inr 0
          else (case parseFloat (trim (filter (\<lambda>c. c \<notin> currencySymbols) s)) of
                  None \<Rightarrow> Inr 0
                | Some x \<Rightarrow> Inr x))"

text \<open>
  \<open>formatCurrency\<close> is \<open>Intl.NumberFormat('en-US', {style: 'currency', currency: 'USD',
  minimumFractionDigits: 2, maximumFractionDigits: 2})\<close>: the magnitude rounded to cents,
  ties away from zero; a minus sign for a negative amount (also one that rounds to zero);
  the dollar sign; the integer part in groups of three separated by commas; a point; two
  fraction digits.
\<close>

fun toDigits :: "nat \<Rightarrow> jsstring" where
  "toDigits n = (if n < 10 then [48 + n] else toDigits (n div 10) @ [48 + n mod 10])"

fun groupDigits :: "nat \<Rightarrow> jsstring" where
  "groupDigits n =
     (if n < 1000 then toDigits n
      else groupDigits (n div 1000) @
           [44, 48 + n mod 1000 div 100, 48 + n mod 1000 div 10 mod 10, 48 + n mod 1000 mod 10])"

declare toDigits.simps [simp del] groupDigits.simps [simp del]

definition roundCents :: "real \<Rightarrow> nat" where
  "roundCents amount = nat \<lfloor>\<bar>amount\<bar> * 100 + 1 / 2\<rfloor>"

definition formatCurrency :: "real \<Rightarrow> jsstring" where
  "formatCurrency amount =
     (if amount < 0 then [45] else []) @ [36] @ groupDigits (roundCents amount div 100) @
     [46, 48 + roundCents amount mod 100 div 10, 48 + roundCents amount mod 10]"

text \<open>The value the two-decimal rendering denotes.\<close>

definition round2 :: "real \<Rightarrow> real" where
  "round2 x = (if x < 0 then - 1 else 1) * real (roundCents x) / 100"

section \<open>Exceptions\<close>

text \<open>
  An exception is a value: a function that can throw returns \<open>error + 'a\<close>. \<open>forEachE\<close> is
  \<open>Array.prototype.forEach\<close> (or \<open>map\<close>) with a callback that rewrites or produces one
  element and may throw; \<open>foldE\<close> threads an accumulator. Both stop at the first exception.
\<close>

fun forEachE :: "('a \<Rightarrow> error + 'b) \<Rightarrow> 'a list \<Rightarrow> error + 'b list" where
  "forEachE f [] = Inr []"
| "forEachE f (x # xs) =
     (case f x of
        Inl e \<Rightarrow> Inl e
      | Inr y \<Rightarrow> (case forEachE f xs of Inl e \<Rightarrow> Inl e | Inr ys \<Rightarrow> Inr (y # ys)))"

fun foldE :: "('s \<Rightarrow> 'a \<Rightarrow> error + 's) \<Rightarrow> 's \<Rightarrow> 'a list \<Rightarrow> error + 's" where
  "foldE f s [] = Inr s"
| "foldE f s (x # xs) = (case f s x of Inl e \<Rightarrow> Inl e | Inr s' \<Rightarrow> foldE f s' xs)"

section \<open>Inventory generators\<close>

text \<open>
  The claims about the generators concern what happens when something in them throws. The
  model keeps, in the order of the source, every operation of a generator that can throw
  for arguments of the declared types: \<open>encodeURIComponent\<close> (a \<open>URIError\<close> on a lone
  surrogate) and \<open>Date.prototype.toISOString\<close> (a \<open>RangeError\<close> on an invalid date). The
  items themselves (names, prices, ratings: table look-ups at indices reduced modulo the
  table's length and arithmetic on doubles, none of which throws) are a parameter \<open>build\<close>:
  the array the generator returns when nothing throws.
\<close>

text \<open>
  \<open>toLowerCase\<close> on the ASCII letters; the Unicode case mapping of other code units is not
  modelled (they are left as they are).
\<close>

definition toLowerCase :: "jsstring \<Rightarrow> jsstring" where
  "toLowerCase s = map (\<lambda>c. if 65 \<le> c \<and> c \<le> 90 then c + 32 else c) s"

subsection \<open>\<open>hashString\<close>\<close>

text \<open>
  \<open>hash = ((hash << 5) - hash) + char; hash = hash & hash\<close> keeps the low 32 bits as a
  signed integer; \<open>Math.abs\<close> of the result is at most \<open>2 ^ 31\<close>.
\<close>

definition hashString :: "jsstring \<Rightarrow> nat" where
  "hashString str =
     nat \<bar>sint (foldl (\<lambda>hash char. (push_bit 5 hash - hash) + word_of_nat char)
                  (0 :: 32 word) str)\<bar>"

subsection \<open>\<open>encodeURIComponent\<close>\<close>

text \<open>Surrogate code units.\<close>

definition isHighSurrogate :: "nat \<Rightarrow> bool" where
  "isHighSurrogate c \<longleftrightarrow> 55296 \<le> c \<and> c \<le> 56319"

definition isLowSurrogate :: "nat \<Rightarrow> bool" where
  "isLowSurrogate c \<longleftrightarrow> 56320 \<le> c \<and> c \<le> 57343"

definition uriUnreserved :: "nat \<Rightarrow> bool" where
  "uriUnreserved c \<longleftrightarrow>
     (48 \<le> c \<and> c \<le> 57) \<or> (65 \<le> c \<and> c \<le> 90) \<or> (97 \<le> c \<and> c \<le> 122)
     \<or> c \<in> {45, 95, 46, 33, 126, 42, 39, 40, 41}"

definition hexDigit :: "nat \<Rightarrow> nat" where
  "hexDigit n = (if n < 10 then 48 + n else 55 + n)"

definition percentEncode :: "nat list \<Rightarrow> jsstring" where
  "percentEncode octets = concat (map (\<lambda>b. [37, hexDigit (b div 16), hexDigit (b mod 16)]) octets)"

definition utf8 :: "nat \<Rightarrow> nat list" where
  "utf8 cp =
     (if cp < 128 then [cp]
      else if cp < 2048 then [192 + cp div 64, 128 + cp mod 64]
      else if cp < 65536 then [224 + cp div 4096, 128 + cp div 64 mod 64, 128 + cp mod 64]
      else [240 + cp div 262144, 128 + cp div 4096 mod 64, 128 + cp div 64 mod 64,
            128 + cp mod 64])"

fun encodeURIComponent :: "jsstring \<Rightarrow> error + jsstring" where
  "encodeURIComponent [] = Inr []"
| "encodeURIComponent (c # r) =
     (if uriUnreserved c then
        (case encodeURIComponent r of Inl e \<Rightarrow> Inl e | Inr t \<Rightarrow> Inr (c # t))
      else if isLowSurrogate c then Inl URIError
      else if isHighSurrogate c then
        (case r of
           [] \<Rightarrow> Inl URIError
         | d # r' \<Rightarrow>
             if isLowSurrogate d then
               (case encodeURIComponent r' of
                  Inl e \<Rightarrow> Inl e
                | Inr t \<Rightarrow>
                    Inr (percentEncode (utf8 ((c - 55296) * 1024 + (d - 56320) + 65536)) @ t))
             else Inl URIError)
      else
        (case encodeURIComponent r of
           Inl e \<Rightarrow> Inl e
         | Inr t \<Rightarrow> Inr (percentEncode (utf8 c) @ t)))"

text \<open>No lone surrogate: what makes \<open>encodeURIComponent\<close> succeed.\<close>

fun wellFormed :: "jsstring \<Rightarrow> bool" where
  "wellFormed [] = True"
| "wellFormed [c] = (\<not> isHighSurrogate c \<and> \<not> isLowSurrogate c)"
| "wellFormed (c # d # r) =
     (if isHighSurrogate c then isLowSurrogate d \<and> wellFormed r
      else \<not> isLowSurrogate c \<and> wellFormed (d # r))"

subsection \<open>Hotels (\<open>searchHotels\<close>)\<close>

text \<open>\<open>destination.split(',')[0].trim()\<close>\<close>

definition cityOf :: "jsstring \<Rightarrow> jsstring" where
  "cityOf destination = trim (takeWhile (\<lambda>c. c \<noteq> 44) destination)"

text \<open>
  \<open>generateHotels\<close> builds between 8 and 15 hotels; each iteration encodes the city for the
  image address.
\<close>

definition searchHotelsTry ::
  "(jsstring \<Rightarrow> jsstring \<Rightarrow> jsstring \<Rightarrow> real \<Rightarrow> jsstring \<Rightarrow> 'h list)
   \<Rightarrow> jsstring \<Rightarrow> jsstring \<Rightarrow> jsstring \<Rightarrow> real \<Rightarrow> jsstring \<Rightarrow> error + 'h list" where
  "searchHotelsTry build destination checkInDate checkOutDate guests accommodationType =
     (let seed = hashString (destination @ js ''-'' @ checkInDate @ js ''-'' @ checkOutDate);
          numHotels = 8 + seed mod 8
      in case forEachE (\<lambda>i. encodeURIComponent (cityOf destination)) [0..<numHotels] of
           Inl e \<Rightarrow> Inl e
         | Inr imageQueries \<Rightarrow>
             Inr (build destination checkInDate checkOutDate guests accommodationType))"

definition searchHotels ::
  "(jsstring \<Rightarrow> jsstring \<Rightarrow> jsstring \<Rightarrow> real \<Rightarrow> jsstring \<Rightarrow> 'h list)
   \<Rightarrow> jsstring \<Rightarrow> jsstring \<Rightarrow> jsstring \<Rightarrow> real \<Rightarrow> jsstring \<Rightarrow> error + 'h list" where
  "searchHotels build destination checkInDate checkOutDate guests accommodationType =
     (case searchHotelsTry build destination checkInDate checkOutDate guests accommodationType of
        Inl e \<Rightarrow> Inr []
      | Inr hotels \<Rightarrow> Inr hotels)"

subsection \<open>Activities (\<open>findActivities\<close>)\<close>

text \<open>\<open>String.prototype.includes\<close>\<close>

fun stringIncludes :: "jsstring \<Rightarrow> jsstring \<Rightarrow> bool" where
  "stringIncludes [] t = (t = [])"
| "stringIncludes (c # s) t = (take (length t) (c # s) = t \<or> stringIncludes s t)"

text \<open>The interests of the eight categories, in the order of the table.\<close>

definition categoryInterests :: "jsstring list list" where
  "categoryInterests =
     [[js ''history'', js ''culture'', js ''architecture'', js ''sightseeing''],
      [js ''history'', js ''culture'', js ''art'', js ''museums'', js ''education''],
      [js ''food'', js ''culinary'', js ''wine'', js ''local cuisine'', js ''gastronomy''],
      [js ''nature'', js ''outdoors'', js ''hiking'', js ''wildlife'', js ''adventure''],
      [js ''adventure'', js ''adrenaline'', js ''sports'', js ''extreme'', js ''active''],
      [js ''entertainment'', js ''nightlife'', js ''shows'', js ''fun'', js ''music''],
      [js ''shopping'', js ''markets'', js ''local products'', js ''souvenirs''],
      [js ''relaxation'', js ''wellness'', js ''spa'', js ''peaceful'', js ''mindfulness'']]"

definition matchingCategories :: "jsstring \<Rightarrow> jsstring list list" where
  "matchingCategories interest =
     filter (\<lambda>category. \<exists>catInterest \<in> set category.
                stringIncludes catInterest interest \<or> stringIncludes interest catInterest)
       categoryInterests"

text \<open>
  \<open>generateActivities\<close> calls \<open>generateActivity\<close> once for each of the first eight interests
  that matches a category, then for the rest of \<open>min(50, tripDuration * 4 + 10)\<close>; every
  call encodes the city for the image address. The trip duration is an integer.
\<close>

definition activityCalls :: "jsstring list \<Rightarrow> int \<Rightarrow> nat" where
  "activityCalls interests tripDuration =
     (let userInterests =
            (if length interests > 0 then interests
             else [js ''history'', js ''food'', js ''culture'', js ''nature'']);
          matched = length (filter (\<lambda>interest. matchingCategories (toLowerCase interest) \<noteq> [])
                              (take 8 userInterests));
          numActivities = min 50 (tripDuration * 4 + 10)
      in matched + nat (numActivities - int matched))"

definition findActivitiesTry ::
  "(jsstring \<Rightarrow> jsstring list \<Rightarrow> int \<Rightarrow> 'a list)
   \<Rightarrow> jsstring \<Rightarrow> jsstring list \<Rightarrow> int \<Rightarrow> error + 'a list" where
  "findActivitiesTry build destination interests tripDuration =
     (case forEachE (\<lambda>i. encodeURIComponent (cityOf destination))
             [0..<activityCalls interests tripDuration] of
        Inl e \<Rightarrow> Inl e
      | Inr imageQueries \<Rightarrow> Inr (build destination interests tripDuration))"

definition findActivities ::
  "(jsstring \<Rightarrow> jsstring list \<Rightarrow> int \<Rightarrow> 'a list)
   \<Rightarrow> jsstring \<Rightarrow> jsstring list \<Rightarrow> int \<Rightarrow> error + 'a list" where
  "findActivities build destination interests tripDuration =
     (case findActivitiesTry build destination interests tripDuration of
        Inl e \<Rightarrow> Inr []
      | Inr activities \<Rightarrow> Inr activities)"

subsection \<open>Flights (\<open>searchFlights\<close>)\<close>

text \<open>
  A \<open>Date\<close> is its time value in milliseconds, or invalid (\<open>None\<close>). Reading a date string
  (\<open>new Date(string)\<close>) is left to the implementation by the language, and so is a parameter
  \<open>parseDate\<close>, as is the text \<open>isoText\<close> that \<open>toISOString\<close> prints for a valid date. \<open>setHours\<close>
  works in local time, taken to be UTC.
\<close>

definition timeClip :: "int \<Rightarrow> int option" where
  "timeClip t = (if \<bar>t\<bar> \<le> 8640000000000000 then Some t else None)"

definition toISOString :: "(int \<Rightarrow> jsstring) \<Rightarrow> int option \<Rightarrow> error + jsstring" where
  "toISOString isoText d = (case d of None \<Rightarrow> Inl RangeError | Some t \<Rightarrow> Inr (isoText t))"

definition setHours :: "int option \<Rightarrow> nat \<Rightarrow> nat \<Rightarrow> int option" where
  "setHours d hour minute =
     (case d of
        None \<Rightarrow> None
      | Some t \<Rightarrow>
          timeClip (t div 86400000 * 86400000 + int hour * 3600000 + int minute * 60000
                    + t mod 1000))"

definition calculateFlightDuration :: "jsstring \<Rightarrow> jsstring \<Rightarrow> nat" where
  "calculateFlightDuration origin destination =
     hashString (origin @ js ''-'' @ destination) mod 12 + 3"

text \<open>The two time stamps of flight \<open>i\<close>: departure and arrival.\<close>

definition flightTimes ::
  "(int \<Rightarrow> jsstring) \<Rightarrow> jsstring \<Rightarrow> jsstring \<Rightarrow> int option \<Rightarrow> nat \<Rightarrow> nat
   \<Rightarrow> error + jsstring \<times> jsstring" where
  "flightTimes isoText originCity destinationCity departureDate seed i =
     (let departureHour = 6 + (seed + i * 3) mod 16;
          departureMinute = (seed + i * 7) mod 12 * 5;
          departureDateWithTime = setHours departureDate departureHour departureMinute;
          durationVariance = int ((seed + i) mod 5) - 2;
          durationHours =
            max 1 (int (calculateFlightDuration originCity destinationCity) + durationVariance);
          durationMinutes = int ((seed + i * 13) mod 12 * 5);
          arrivalDateWithTime =
            (case departureDateWithTime of
               None \<Rightarrow> None
             | Some t \<Rightarrow> timeClip (t + durationHours * 60 * 60 * 1000 + durationMinutes * 60 * 1000))
      in case toISOString isoText departureDateWithTime of
           Inl e \<Rightarrow> Inl e
         | Inr departureTime \<Rightarrow>
             (case toISOString isoText arrivalDateWithTime of
                Inl e \<Rightarrow> Inl e
              | Inr arrivalTime \<Rightarrow> Inr (departureTime, arrivalTime)))"

definition generateFlights ::
  "(int \<Rightarrow> jsstring) \<Rightarrow> jsstring \<Rightarrow> jsstring \<Rightarrow> int option
   \<Rightarrow> error + (jsstring \<times> jsstring) list" where
  "generateFlights isoText originCity destinationCity departureDate =
     (case toISOString isoText departureDate of
        Inl e \<Rightarrow> Inl e
      | Inr departureText \<Rightarrow>
          (let seed = hashString (originCity @ js ''-'' @ destinationCity @ js ''-'' @ departureText);
               numFlights = 3 + seed mod 5
           in forEachE (flightTimes isoText originCity destinationCity departureDate seed)
                [0..<numFlights]))"

definition searchFlightsTry ::
  "(jsstring \<Rightarrow> int option) \<Rightarrow> (int \<Rightarrow> jsstring)
   \<Rightarrow> (jsstring \<Rightarrow> jsstring \<Rightarrow> jsstring \<Rightarrow> real \<Rightarrow> 'f list)
   \<Rightarrow> jsstring \<Rightarrow> jsstring \<Rightarrow> jsstring \<Rightarrow> real \<Rightarrow> error + 'f list" where
  "searchFlightsTry parseDate isoText build destination departDate returnDate passengers =
     (case generateFlights isoText (js ''New York'') (cityOf destination) (parseDate departDate) of
        Inl e \<Rightarrow> Inl e
      | Inr outboundTimes \<Rightarrow>
          (case generateFlights isoText (cityOf destination) (js ''New York'') (parseDate returnDate) of
             Inl e \<Rightarrow> Inl e
           | Inr returnTimes \<Rightarrow> Inr (build destination departDate returnDate passengers)))"

definition searchFlights ::
  "(jsstring \<Rightarrow> int option) \<Rightarrow> (int \<Rightarrow> jsstring)
   \<Rightarrow> (jsstring \<Rightarrow> jsstring \<Rightarrow> jsstring \<Rightarrow> real \<Rightarrow> 'f list)
   \<Rightarrow> jsstring \<Rightarrow> jsstring \<Rightarrow> jsstring \<Rightarrow> real \<Rightarrow> error + 'f list" where
  "searchFlights parseDate isoText build destination departDate returnDate passengers =
     (case searchFlightsTry parseDate isoText build destination departDate returnDate passengers of
        Inl e \<Rightarrow> Inr []
      | Inr flights \<Rightarrow> Inr flights)"

subsection \<open>Map data (\<open>getMapData\<close>)\<close>

text \<open>
  \<open>simulateGeocode\<close> encodes the destination for the photo address, and
  \<open>simulateNearbySearch\<close> does so for each of its 8 to 12 places. The \<open>catch\<close> of
  \<open>getMapData\<close> throws a new \<open>Error\<close>.
\<close>

definition getMapDataTry :: "(jsstring \<Rightarrow> 'm) \<Rightarrow> jsstring \<Rightarrow> error + 'm" where
  "getMapDataTry build destination =
     (case encodeURIComponent destination of
        Inl e \<Rightarrow> Inl e
      | Inr mainPhoto \<Rightarrow>
          (case forEachE (\<lambda>i. encodeURIComponent destination)
                  [0..<8 + hashString destination mod 5] of
             Inl e \<Rightarrow> Inl e
           | Inr placePhotos \<Rightarrow> Inr (build destination)))"

definition getMapData :: "(jsstring \<Rightarrow> 'm) \<Rightarrow> jsstring \<Rightarrow> error + 'm" where
  "getMapData build destination =
     (case getMapDataTry build destination of
        Inl e \<Rightarrow> Inl (Error (js ''Failed to fetch map data for destination''))
      | Inr mapData \<Rightarrow> Inr mapData)"

text \<open>Example arguments: a destination whose city is a lone high surrogate.\<close>

definition exampleLoneSurrogate :: jsstring where
  "exampleLoneSurrogate = [55296] @ js '', Norway''"

text \<open>An example date reader: it knows one date string and nothing else.\<close>

definition exampleParseDate :: "jsstring \<Rightarrow> int option" where
  "exampleParseDate s = (if s = js ''2025-06-01'' then Some 1748736000000 else None)"

section \<open>Weather generator (\<open>generateMockWeatherData\<close>)\<close>

text \<open>
  \<open>Math.random()\<close> is the one input of the generator that is not an argument. The model
  makes it one: \<open>rnd k\<close> is what the \<open>k\<close>-th call of an invocation returns, a number at
  least 0 and below 1. The generator calls it six times, in this order: for the minimum
  temperature, the current temperature, the rain chance, the description, the wind speed
  and the humidity.

  \<open>Math.round\<close> rounds to the nearest integer, a tie upwards; \<open>Math.sin\<close> is the real sine.
\<close>

definition mathRound :: "real \<Rightarrow> int" where
  "mathRound x = \<lfloor>x + 1 / 2\<rfloor>"

text \<open>
  \<open>Array.from(string)\<close> iterates by code point and \<open>char.charCodeAt(0)\<close> reads the first
  code unit of each: a surrogate pair counts once, with its high surrogate.
\<close>

fun codePointHeads :: "jsstring \<Rightarrow> nat list" where
  "codePointHeads [] = []"
| "codePointHeads [c] = [c]"
| "codePointHeads (c # d # r) =
     (if isHighSurrogate c \<and> isLowSurrogate d then c # codePointHeads r
      else c # codePointHeads (d # r))"

definition locationHash :: "jsstring \<Rightarrow> nat" where
  "locationHash loc = foldl (\<lambda>hash c. c + hash) 0 (codePointHeads (toLowerCase loc))"

text \<open>What the generator reads of its \<open>Date\<close> argument (a valid date).\<close>

record jsdate =
  getMonth :: nat
  getDate :: nat
  isoDay :: jsstring

datatype condition = Sunny | Cloudy | Rainy | Snowy | Stormy | PartlyCloudy

record temperature =
  minTemp :: int
  maxTemp :: int
  currentTemp :: int

record forecast =
  date :: jsstring
  temperature :: temperature
  description :: jsstring
  wind_speed :: int
  humidity :: int
  condition :: condition
  precipitation_chance :: int

definition seasonalTemp :: "nat \<Rightarrow> real" where
  "seasonalTemp month =
     (if month \<ge> 5 \<and> month \<le> 8 then 8
      else if month \<ge> 11 \<or> month \<le> 2 then - 8
      else 0)"

definition weatherMaxTemp :: "jsstring \<Rightarrow> jsdate \<Rightarrow> int" where
  "weatherMaxTemp loc d =
     mathRound (real (10 + locationHash loc mod 25) + seasonalTemp (getMonth d)
       + (sin (real (getDate d * locationHash loc)) + 1) * 3)"

definition rainChance :: "(nat \<Rightarrow> real) \<Rightarrow> jsstring \<Rightarrow> int" where
  "rainChance rnd loc =
     mathRound ((real (locationHash loc mod 10) / 10 + rnd 2 * (1 / 2)) * 100)"

definition classify :: "int \<Rightarrow> int \<Rightarrow> condition" where
  "classify chance maxT =
     (let c = (if chance > 70 then Rainy
               else if chance > 40 then Cloudy
               else if chance > 20 then PartlyCloudy
               else Sunny)
      in if c = Rainy \<and> maxT < 2 then Snowy else c)"

definition descriptions :: "condition \<Rightarrow> jsstring list" where
  "descriptions c =
     (case c of
        Sunny \<Rightarrow> [js ''Clear skies'', js ''Sunny'', js ''Bright and sunny'', js ''Warm and clear'']
      | PartlyCloudy \<Rightarrow> [js ''Partly cloudy'', js ''Some clouds'', js ''Mostly sunny'']
      | Cloudy \<Rightarrow> [js ''Overcast'', js ''Cloudy skies'', js ''Overcast conditions'']
      | Rainy \<Rightarrow> [js ''Light rain'', js ''Showers'', js ''Rainy'', js ''Precipitation expected'']
      | Snowy \<Rightarrow> [js ''Light snow'', js ''Snowfall'', js ''Snow showers'', js ''Snowy conditions'']
      | Stormy \<Rightarrow> [js ''Thunderstorms'', js ''Stormy conditions'', js ''Thunder and lightning''])"

definition windSpeed :: "(nat \<Rightarrow> real) \<Rightarrow> condition \<Rightarrow> int" where
  "windSpeed rnd c =
     (case c of
        Stormy \<Rightarrow> 30 + mathRound (rnd 4 * 30)
      | Rainy \<Rightarrow> 10 + mathRound (rnd 4 * 20)
      | Snowy \<Rightarrow> 10 + mathRound (rnd 4 * 20)
      | _ \<Rightarrow> 5 + mathRound (rnd 4 * 15))"

definition humidityOf :: "(nat \<Rightarrow> real) \<Rightarrow> condition \<Rightarrow> int" where
  "humidityOf rnd c =
     (case c of
        Rainy \<Rightarrow> 70 + mathRound (rnd 5 * 25)
      | Snowy \<Rightarrow> 70 + mathRound (rnd 5 * 25)
      | Stormy \<Rightarrow> 70 + mathRound (rnd 5 * 25)
      | Cloudy \<Rightarrow> 50 + mathRound (rnd 5 * 30)
      | _ \<Rightarrow> 30 + mathRound (rnd 5 * 30))"

definition generateMockWeatherData :: "(nat \<Rightarrow> real) \<Rightarrow> jsstring \<Rightarrow> jsdate \<Rightarrow> forecast" where
  "generateMockWeatherData rnd loc d =
     (let maxT = weatherMaxTemp loc d;
          minT = mathRound (real_of_int maxT - (5 + rnd 0 * 5));
          currentT = mathRound (real_of_int minT
                       + real_of_int (maxT - minT) * (3 / 10 + rnd 1 * (4 / 10)));
          chance = rainChance rnd loc;
          c = classify chance maxT
      in \<lparr>date = isoDay d,
          temperature = \<lparr>minTemp = minT, maxTemp = maxT, currentTemp = currentT\<rparr>,
          description = descriptions c ! nat \<lfloor>rnd 3 * real (length (descriptions c))\<rfloor>,
          wind_speed = windSpeed rnd c,
          humidity = humidityOf rnd c,
          condition = c,
          precipitation_chance = chance\<rparr>)"

definition exampleJune :: jsdate where
  "exampleJune = \<lparr>getMonth = 5, getDate = 1, isoDay = js ''2025-06-01''\<rparr>"

section \<open>Itinerary data (interfaces \<open>Activity\<close>, \<open>Day\<close>, \<open>Itinerary\<close>)\<close>

text \<open>
  The interfaces declare every \<open>cost\<close> as a string. The optimizer receives the itinerary
  that \<open>processItinerary\<close> builds from parsed JSON, where nothing enforces the declaration,
  so the cost fields are JSON values here. Optional fields are options.
\<close>

record activity =
  name :: jsstring
  description :: jsstring
  cost :: jsval
  type :: jsstring
  location :: jsstring
  duration :: jsstring
  imageUrl :: "jsstring option"

record accommodation =
  name :: jsstring
  location :: jsstring
  cost :: jsval
  imageUrl :: "jsstring option"

record transportation =
  type :: jsstring
  details :: jsstring
  cost :: jsval

record day =
  date :: jsstring
  activities :: "activity list"
  accommodation :: accommodation
  transportation :: transportation
  alternativeActivities :: "activity list option"

record itinerary =
  destination :: jsstring
  totalCost :: jsval
  duration :: jsstring
  days :: "day list"
  travelTips :: "jsstring list"

section \<open>Double precision\<close>

text \<open>
  Sums of decimal amounts are not exact in the source's arithmetic: \<open>0.30 + 0.16\<close> is
  \<open>0.45999999999999996\<close>, which is below \<open>0.46\<close>. The three category totals of
  \<open>analyzeBudgetAllocation\<close> are compared with each other to choose the category that is
  reduced, and whether two such totals are equal depends on the rounding of every addition.
  These totals are therefore accumulated as the source accumulates them, in IEEE-754 double
  precision.

  \<open>toDouble x\<close> is the double nearest to \<open>x\<close>: the significand has 53 bits, the exponent of
  the last bit is at least \<open>-1074\<close> (gradual underflow), and a number half-way between two
  doubles goes to the one with the even significand. \<open>binade x\<close> is the integer part of
  the binary logarithm of a positive \<open>x\<close>. Numbers beyond the largest finite double are
  outside the model. \<open>addDouble\<close> is the \<open>+\<close> of two numbers held as doubles.
\<close>

fun bitLength :: "nat \<Rightarrow> nat" where
  "bitLength n = (if n = 0 then 0 else Suc (bitLength (n div 2)))"

declare bitLength.simps [simp del]

definition binade :: "real \<Rightarrow> int" where
  "binade x = (if 1 \<le> x then int (bitLength (nat \<lfloor>x\<rfloor>)) - 1
               else - int (bitLength (nat (\<lceil>1 / x\<rceil> - 1))))"

definition scale2 :: "real \<Rightarrow> int \<Rightarrow> real" where
  "scale2 m e = (if 0 \<le> e then m * 2 ^ nat e else m / 2 ^ nat (- e))"

definition roundTiesToEven :: "real \<Rightarrow> int" where
  "roundTiesToEven x =
     (if x - of_int \<lfloor>x\<rfloor> < 1 / 2 then \<lfloor>x\<rfloor>
      else if 1 / 2 < x - of_int \<lfloor>x\<rfloor> then \<lfloor>x\<rfloor> + 1
      else if even \<lfloor>x\<rfloor> then \<lfloor>x\<rfloor> else \<lfloor>x\<rfloor> + 1)"

definition ulpExponent :: "real \<Rightarrow> int" where
  "ulpExponent x = max (binade \<bar>x\<bar>) (- 1022) - 52"

definition toDouble :: "real \<Rightarrow> real" where
  "toDouble x =
     (if x = 0 then 0
      else scale2 (of_int (roundTiesToEven (scale2 x (- ulpExponent x)))) (ulpExponent x))"

definition addDouble :: "real \<Rightarrow> real \<Rightarrow> real" where
  "addDouble x y = toDouble (toDouble x + toDouble y)"

section \<open>Budget optimizer\<close>

text \<open>
  \<open>total += parseCurrency(c)\<close>, in two readings. \<open>addCost\<close> adds the amounts as they are
  written; it serves \<open>calculateTotalCost\<close>, whose sum is only printed, rounded to cents.
  \<open>addCostDouble\<close> adds them as doubles; it serves \<open>analyzeBudgetAllocation\<close>, whose
  sums are compared.
\<close>

definition addCost :: "real \<Rightarrow> jsval \<Rightarrow> error + real" where
  "addCost t c = (case parseCurrency c of Inl e \<Rightarrow> Inl e | Inr x \<Rightarrow> Inr (t + x))"

definition addCostDouble :: "real \<Rightarrow> jsval \<Rightarrow> error + real" where
  "addCostDouble t c =
     (case parseCurrency c of Inl e \<Rightarrow> Inl e | Inr x \<Rightarrow> Inr (addDouble t x))"

record budgetBreakdown =
  accommodation :: real
  activities :: real
  transportation :: real

text \<open>
  \<open>analyzeBudgetAllocation\<close>: three running totals over the days, in the source's order,
  each a double.
\<close>

definition analyzeDay :: "budgetBreakdown \<Rightarrow> day \<Rightarrow> error + budgetBreakdown" where
  "analyzeDay b d =
     (case addCostDouble (budgetBreakdown.accommodation b)
             (accommodation.cost (day.accommodation d)) of
        Inl e \<Rightarrow> Inl e
      | Inr acc \<Rightarrow>
     (case addCostDouble (budgetBreakdown.transportation b)
             (transportation.cost (day.transportation d)) of
        Inl e \<Rightarrow> Inl e
      | Inr tr \<Rightarrow>
     (case foldE (\<lambda>t a. addCostDouble t (activity.cost a)) (budgetBreakdown.activities b)
             (day.activities d) of
        Inl e \<Rightarrow> Inl e
      | Inr act \<Rightarrow>
          Inr \<lparr>budgetBreakdown.accommodation = acc, activities = act, transportation = tr\<rparr>)))"

definition analyzeBudgetAllocation :: "itinerary \<Rightarrow> error + budgetBreakdown" where
  "analyzeBudgetAllocation it =
     foldE analyzeDay \<lparr>budgetBreakdown.accommodation = 0, activities = 0, transportation = 0\<rparr>
       (days it)"

text \<open>
  \<open>Math.min(savingsNeeded / total, cap)\<close>. The caller passes a positive \<open>savingsNeeded\<close>, and
  a category total is never the negative zero, so for \<open>total = 0\<close> the quotient is
  \<open>+Infinity\<close> and the minimum is the cap.
\<close>

definition reductionPercentage :: "real \<Rightarrow> real \<Rightarrow> real \<Rightarrow> real" where
  "reductionPercentage savingsNeeded categoryTotal cap =
     (if categoryTotal = 0 then cap else min (savingsNeeded / categoryTotal) cap)"

definition reducedCost :: "real \<Rightarrow> real \<Rightarrow> real" where
  "reducedCost currentCost reduction = currentCost * (1 - reduction)"

definition optimizeAccommodation :: "day list \<Rightarrow> real \<Rightarrow> real \<Rightarrow> error + day list" where
  "optimizeAccommodation ds savingsNeeded totalAccommodationCost =
     forEachE (\<lambda>d.
        case parseCurrency (accommodation.cost (day.accommodation d)) of
          Inl e \<Rightarrow> Inl e
        | Inr currentCost \<Rightarrow>
            Inr (d\<lparr>day.accommodation := (day.accommodation d)\<lparr>accommodation.cost :=
                   JString (formatCurrency (reducedCost currentCost
                     (reductionPercentage savingsNeeded totalAccommodationCost (1 / 2))))\<rparr>\<rparr>))
       ds"

definition optimizeTransportation :: "day list \<Rightarrow> real \<Rightarrow> real \<Rightarrow> error + day list" where
  "optimizeTransportation ds savingsNeeded totalTransportationCost =
     forEachE (\<lambda>d.
        case parseCurrency (transportation.cost (day.transportation d)) of
          Inl e \<Rightarrow> Inl e
        | Inr currentCost \<Rightarrow>
            Inr (d\<lparr>day.transportation := (day.transportation d)\<lparr>transportation.cost :=
                   JString (formatCurrency (reducedCost currentCost
                     (reductionPercentage savingsNeeded totalTransportationCost (9 / 20))))\<rparr>\<rparr>))
       ds"

text \<open>
  \<open>optimizeActivities\<close>. \<open>sortedActivities\<close> is a shallow copy: its elements are the very
  objects of \<open>day.activities\<close>, so it is a list of positions in that array, stably sorted
  by cost, highest first (the comparator is \<open>parseCurrency(b.cost) - parseCurrency(a.cost)\<close>
  and \<open>Array.prototype.sort\<close> is stable). Each step reads the object at its position as it
  is by then, and writes to the first position whose name equals that object's name.
\<close>

fun findIndex :: "('a \<Rightarrow> bool) \<Rightarrow> 'a list \<Rightarrow> nat option" where
  "findIndex p [] = None"
| "findIndex p (x # xs) = (if p x then Some 0 else map_option Suc (findIndex p xs))"

definition adjustedReduction :: "real \<Rightarrow> nat \<Rightarrow> real" where
  "adjustedReduction r index = r * (1 + (if index = 0 then 2 / 10 else 0))"

definition sortedActivities :: "real list \<Rightarrow> nat list" where
  "sortedActivities costs = sort_key (\<lambda>i. - (costs ! i)) [0..<length costs]"

definition reduceActivity :: "real \<Rightarrow> activity list \<Rightarrow> nat \<times> nat \<Rightarrow> error + activity list" where
  "reduceActivity r acts ip =
     (case ip of (index, pos) \<Rightarrow>
        (case parseCurrency (activity.cost (acts ! pos)) of
           Inl e \<Rightarrow> Inl e
         | Inr currentCost \<Rightarrow>
             (case findIndex (\<lambda>a. activity.name a = activity.name (acts ! pos)) acts of
                None \<Rightarrow> Inr acts
              | Some originalIndex \<Rightarrow>
                  Inr (acts[originalIndex := (acts ! originalIndex)\<lparr>activity.cost :=
                         JString (formatCurrency
                           (reducedCost currentCost (adjustedReduction r index)))\<rparr>]))))"

definition optimizeActivitiesDay :: "real \<Rightarrow> day \<Rightarrow> error + day" where
  "optimizeActivitiesDay r d =
     (case forEachE (\<lambda>a. parseCurrency (activity.cost a)) (day.activities d) of
        Inl e \<Rightarrow> Inl e
      | Inr costs \<Rightarrow>
          (case foldE (reduceActivity r) (day.activities d)
                  (zip [0..<length costs] (sortedActivities costs)) of
             Inl e \<Rightarrow> Inl e
           | Inr acts \<Rightarrow> Inr (d\<lparr>day.activities := acts\<rparr>)))"

definition optimizeActivities :: "day list \<Rightarrow> real \<Rightarrow> real \<Rightarrow> error + day list" where
  "optimizeActivities ds savingsNeeded totalActivitiesCost =
     forEachE (optimizeActivitiesDay (reductionPercentage savingsNeeded totalActivitiesCost (4 / 10)))
       ds"

text \<open>\<open>addBudgetAlternatives\<close>: every day gets a list of clones at 60 percent of the cost.\<close>

definition budgetAlternative :: "activity \<Rightarrow> error + activity" where
  "budgetAlternative a =
     (case parseCurrency (activity.cost a) of
        Inl e \<Rightarrow> Inl e
      | Inr currentCost \<Rightarrow>
          Inr (a\<lparr>activity.name := js ''Budget '' @ activity.name a,
                 activity.description :=
                   js ''A more affordable version of '' @ activity.name a @ js ''.'',
                 activity.cost := JString (formatCurrency (currentCost * (6 / 10)))\<rparr>))"

definition addBudgetAlternatives :: "day list \<Rightarrow> error + day list" where
  "addBudgetAlternatives ds =
     forEachE (\<lambda>d.
        case forEachE budgetAlternative (day.activities d) of
          Inl e \<Rightarrow> Inl e
        | Inr alternatives \<Rightarrow> Inr (d\<lparr>alternativeActivities := Some alternatives\<rparr>))
       ds"

text \<open>\<open>calculateTotalCost\<close>\<close>

definition totalDay :: "real \<Rightarrow> day \<Rightarrow> error + real" where
  "totalDay t d =
     (case addCost t (accommodation.cost (day.accommodation d)) of
        Inl e \<Rightarrow> Inl e
      | Inr t1 \<Rightarrow>
     (case addCost t1 (transportation.cost (day.transportation d)) of
        Inl e \<Rightarrow> Inl e
      | Inr t2 \<Rightarrow> foldE (\<lambda>t a. addCost t (activity.cost a)) t2 (day.activities d)))"

definition calculateTotalCost :: "day list \<Rightarrow> error + real" where
  "calculateTotalCost ds = foldE totalDay 0 ds"

text \<open>
  \<open>optimizeBudget\<close>. \<open>optimizeBudgetTry\<close> is the \<open>try\<close> block. The deep copy
  \<open>JSON.parse(JSON.stringify(itinerary))\<close> yields an equal value that shares nothing with the
  argument, so the rewriting below never touches the argument; in the model values are
  immutable and the copy is the identity. \<open>optimizeBudget\<close> adds the \<open>catch\<close>.
\<close>

definition optimizeCategory :: "budgetBreakdown \<Rightarrow> day list \<Rightarrow> real \<Rightarrow> error + day list" where
  "optimizeCategory b ds savingsNeeded =
     (if budgetBreakdown.accommodation b > budgetBreakdown.activities b
         \<and> budgetBreakdown.accommodation b > budgetBreakdown.transportation b
      then optimizeAccommodation ds savingsNeeded (budgetBreakdown.accommodation b)
      else if budgetBreakdown.activities b > budgetBreakdown.transportation b
      then optimizeActivities ds savingsNeeded (budgetBreakdown.activities b)
      else optimizeTransportation ds savingsNeeded (budgetBreakdown.transportation b))"

definition optimizeBudgetTry :: "itinerary \<Rightarrow> real \<Rightarrow> error + itinerary" where
  "optimizeBudgetTry it totalBudget =
     (case parseCurrency (totalCost it) of
        Inl e \<Rightarrow> Inl e
      | Inr currentCost \<Rightarrow>
          if currentCost \<le> totalBudget then Inr it
          else
            (case analyzeBudgetAllocation it of
               Inl e \<Rightarrow> Inl e
             | Inr budgetBreakdown \<Rightarrow>
            (case optimizeCategory budgetBreakdown (days it) (currentCost - totalBudget) of
               Inl e \<Rightarrow> Inl e
             | Inr optimized \<Rightarrow>
            (case calculateTotalCost optimized of
               Inl e \<Rightarrow> Inl e
             | Inr newTotalCost \<Rightarrow>
            (case addBudgetAlternatives optimized of
               Inl e \<Rightarrow> Inl e
             | Inr withAlternatives \<Rightarrow>
                 Inr (it\<lparr>totalCost := JString (formatCurrency newTotalCost),
                        days := withAlternatives\<rparr>))))))"

definition optimizeBudget :: "itinerary \<Rightarrow> real \<Rightarrow> itinerary" where
  "optimizeBudget it totalBudget =
     (case optimizeBudgetTry it totalBudget of Inl e \<Rightarrow> it | Inr optimized \<Rightarrow> optimized)"

section \<open>Notions used in the statements\<close>

text \<open>
  A cost \<open>parses\<close> when \<open>parseCurrency\<close> does not throw on it; \<open>amount\<close> is the number it
  then returns.
\<close>

definition parses :: "jsval \<Rightarrow> bool" where
  "parses v \<longleftrightarrow> (\<exists>x. parseCurrency v = Inr x)"

definition amount :: "jsval \<Rightarrow> real" where
  "amount v = (case parseCurrency v of Inl e \<Rightarrow> 0 | Inr x \<Rightarrow> x)"

definition allParse :: "activity list \<Rightarrow> bool" where
  "allParse acts \<longleftrightarrow> (\<forall>a \<in> set acts. parses (activity.cost a))"

definition dayParses :: "day \<Rightarrow> bool" where
  "dayParses d \<longleftrightarrow>
     parses (accommodation.cost (day.accommodation d))
     \<and> parses (transportation.cost (day.transportation d))
     \<and> (\<forall>a \<in> set (day.activities d). parses (activity.cost a))"

text \<open>
  The cost of a day in the specification's words: the accommodation cost plus the
  transportation cost plus the sum of the activity costs.
\<close>

definition dayCost :: "day \<Rightarrow> real" where
  "dayCost d =
     amount (accommodation.cost (day.accommodation d))
     + amount (transportation.cost (day.transportation d))
     + sum_list (map (\<lambda>a. amount (activity.cost a)) (day.activities d))"

text \<open>
  The three category totals: each is the double-precision sum, taken from the left, of the
  amounts of its category in the order of the days (and, within a day, of the activities).
\<close>

definition sumDouble :: "real list \<Rightarrow> real" where
  "sumDouble xs = foldl addDouble 0 xs"

definition categoryTotals :: "day list \<Rightarrow> budgetBreakdown" where
  "categoryTotals ds =
     \<lparr>budgetBreakdown.accommodation =
        sumDouble (map (\<lambda>d. amount (accommodation.cost (day.accommodation d))) ds),
      activities =
        sumDouble (concat (map (\<lambda>d. map (\<lambda>a. amount (activity.cost a)) (day.activities d)) ds)),
      transportation =
        sumDouble (map (\<lambda>d. amount (transportation.cost (day.transportation d))) ds)\<rparr>"

text \<open>The cost fields of an itinerary, category by category.\<close>

definition accommodationCosts :: "day list \<Rightarrow> jsval list" where
  "accommodationCosts ds = map (\<lambda>d. accommodation.cost (day.accommodation d)) ds"

definition transportationCosts :: "day list \<Rightarrow> jsval list" where
  "transportationCosts ds = map (\<lambda>d. transportation.cost (day.transportation d)) ds"

definition activityCosts :: "day list \<Rightarrow> jsval list list" where
  "activityCosts ds = map (\<lambda>d. map activity.cost (day.activities d)) ds"

text \<open>The budget alternative of an activity whose cost parses.\<close>

definition alternativeOf :: "activity \<Rightarrow> activity" where
  "alternativeOf a =
     a\<lparr>activity.name := js ''Budget '' @ activity.name a,
       activity.description := js ''A more affordable version of '' @ activity.name a @ js ''.'',
       activity.cost := JString (formatCurrency (amount (activity.cost a) * (6 / 10)))\<rparr>"

text \<open>An activity with its cost reduced as the step at place \<open>index\<close> of the cost order does.\<close>

definition reducedActivity :: "real \<Rightarrow> activity \<Rightarrow> nat \<Rightarrow> activity" where
  "reducedActivity r a index =
     a\<lparr>activity.cost := JString (formatCurrency
          (reducedCost (amount (activity.cost a)) (adjustedReduction r index)))\<rparr>"

text \<open>
  The single most expensive activity of a day: the first position whose cost is at least
  every cost of the day.
\<close>

definition mostExpensive :: "real list \<Rightarrow> nat" where
  "mostExpensive costs =
     (case findIndex (\<lambda>c. \<forall>c' \<in> set costs. c' \<le> c) costs of Some i \<Rightarrow> i | None \<Rightarrow> 0)"

section \<open>Example values\<close>

text \<open>Builders for the concrete itineraries at which the theorems below are evaluated.\<close>

definition exampleActivity :: "string \<Rightarrow> jsval \<Rightarrow> activity" where
  "exampleActivity n c =
     \<lparr>activity.name = js n, description = js ''A visit'', cost = c, type = js ''Cultural'',
      location = js ''Centre'', duration = js ''2 hours'', imageUrl = None\<rparr>"

definition exampleDay :: "jsval \<Rightarrow> jsval \<Rightarrow> activity list \<Rightarrow> day" where
  "exampleDay a t acts =
     \<lparr>date = js ''2025-06-01'', activities = acts,
      accommodation =
        \<lparr>accommodation.name = js ''Hotel'', location = js ''Centre'', cost = a, imageUrl = None\<rparr>,
      transportation =
        \<lparr>transportation.type = js ''Metro'', details = js ''Day pass'', cost = t\<rparr>,
      alternativeActivities = None\<rparr>"

definition exampleItinerary :: "jsval \<Rightarrow> day list \<Rightarrow> itinerary" where
  "exampleItinerary t ds =
     \<lparr>destination = js ''Lisbon'', totalCost = t, duration = js ''1 days'', days = ds,
      travelTips = []\<rparr>"

definition usd :: "string \<Rightarrow> jsval" where
  "usd s = JString (js s)"

definition exampleWithin :: itinerary where
  "exampleWithin = exampleItinerary (usd ''$100'')
     [exampleDay (usd ''$50'') (usd ''$10'') [exampleActivity ''Museum'' (usd ''$20'')]]"

text \<open>The scenario of the specification: two days at 170 dollars each.\<close>

definition exampleScenario :: itinerary where
  "exampleScenario = exampleItinerary (usd ''$340'')
     [exampleDay (usd ''$120'') (usd ''$10'')
        [exampleActivity ''Museum'' (usd ''$25''), exampleActivity ''Tour'' (usd ''$15'')],
      exampleDay (usd ''$120'') (usd ''$10'')
        [exampleActivity ''Museum'' (usd ''$25''), exampleActivity ''Tour'' (usd ''$15'')]]"

definition exampleTie :: itinerary where
  "exampleTie = exampleItinerary (usd ''$210'')
     [exampleDay (usd ''$100'') (usd ''$10'') [exampleActivity ''Museum'' (usd ''$100'')]]"

text \<open>
  Decimal amounts that add up to the same value: accommodation 0.46, activities 0.30 and
  0.16.
\<close>

definition exampleDecimal :: itinerary where
  "exampleDecimal = exampleItinerary (usd ''$1.00'')
     [exampleDay (usd ''$0.46'') (usd ''$0.08'')
        [exampleActivity ''Museum'' (usd ''$0.30''), exampleActivity ''Tour'' (usd ''$0.16'')]]"

definition exampleCapped :: "day list" where
  "exampleCapped =
     [exampleDay (usd ''$10'') (usd ''$10'')
        [exampleActivity ''Tour'' (usd ''$50''), exampleActivity ''Museum'' (usd ''$100'')]]"

definition exampleOverCap :: itinerary where
  "exampleOverCap = exampleItinerary (usd ''$170'') exampleCapped"

text \<open>A draft whose accommodation cost came out of the JSON as a number.\<close>

definition exampleBadCost :: itinerary where
  "exampleBadCost = exampleItinerary (usd ''$340'')
     [exampleDay (JNumber 120) (usd ''$10'') [exampleActivity ''Museum'' (usd ''$25'')]]"

definition exampleDuplicates :: day where
  "exampleDuplicates = exampleDay (usd ''$10'') (usd ''$10'')
        [exampleActivity ''Tour'' (usd ''$50''), exampleActivity ''Tour'' (usd ''$100'')]"

section \<open>Invocations\<close>








section \<open>Proofs: currency utility\<close>

lemmas currency_eval =
  js_def isWhiteSpace_def trim_def isDigit_def digitsValue_def scale10_def signedInteger_def
  exponentPart_def unsignedDecimal_def parseFloat_def currencySymbols_def parseCurrency_def
  toDigits.simps groupDigits.simps roundCents_def formatCurrency_def round2_def Let_def

lemma digitsValue_snoc: "digitsValue (ds @ [c]) = digitsValue ds * 10 + (c - 48)"
  by (simp add: digitsValue_def)

lemma toDigits_digits: "\<forall>c \<in> set (toDigits n). isDigit c"
proof (induction n rule: toDigits.induct)
  case (1 n)
  show ?case
  proof (cases "n < 10")
    case True
    then show ?thesis by (simp add: toDigits.simps [of n] isDigit_def)
  next
    case False
    have "n mod 10 < 10" by simp
    then have "isDigit (48 + n mod 10)" unfolding isDigit_def by linarith
    with False 1 show ?thesis by (simp add: toDigits.simps [of n])
  qed
qed

lemma toDigits_nonempty: "toDigits n \<noteq> []"
  by (simp add: toDigits.simps [of n])

lemma toDigits_value: "digitsValue (toDigits n) = n"
proof (induction n rule: toDigits.induct)
  case (1 n)
  show ?case
  proof (cases "n < 10")
    case True
    then show ?thesis by (simp add: toDigits.simps [of n] digitsValue_def)
  next
    case False
    with 1 show ?thesis by (simp add: toDigits.simps [of n] digitsValue_snoc)
  qed
qed

lemma digit_not_symbol: "isDigit c \<Longrightarrow> c \<notin> currencySymbols"
  by (auto simp: isDigit_def currencySymbols_def)

lemma ungroup_digits: "\<forall>c \<in> set ds. isDigit c \<Longrightarrow> filter (\<lambda>c. c \<notin> currencySymbols) ds = ds"
  by (induction ds) (auto simp: digit_not_symbol)

lemma digitsValue_snoc3:
  "digitsValue (ds @ [a, b, c]) = ((digitsValue ds * 10 + (a - 48)) * 10 + (b - 48)) * 10 + (c - 48)"
  by (simp add: digitsValue_def)

lemma three_digits: "(m::nat) div 100 * 100 + m div 10 mod 10 * 10 + m mod 10 = m"
proof -
  have e1: "m div 10 * 10 + m mod 10 = m" by simp
  have e2: "m div 10 div 10 * 10 + m div 10 mod 10 = m div 10" by simp
  have e3: "m div 100 = m div 10 div 10" by (simp add: div_mult2_eq)
  have "m div 100 * 100 + m div 10 mod 10 * 10 = (m div 10 div 10 * 10 + m div 10 mod 10) * 10"
    unfolding e3 by (simp only: distrib_right mult.assoc)
  then show ?thesis using e1 e2 by simp
qed

lemma isDigit_offset: "k < 10 \<Longrightarrow> isDigit (48 + k)"
  by (simp add: isDigit_def)

lemma groupDigits_ungroup:
  "(\<forall>c \<in> set (filter (\<lambda>c. c \<notin> currencySymbols) (groupDigits n)). isDigit c)
   \<and> filter (\<lambda>c. c \<notin> currencySymbols) (groupDigits n) \<noteq> []
   \<and> digitsValue (filter (\<lambda>c. c \<notin> currencySymbols) (groupDigits n)) = n"
proof (induction n rule: groupDigits.induct)
  case (1 n)
  show ?case
  proof (cases "n < 1000")
    case True
    then have "groupDigits n = toDigits n" by (simp add: groupDigits.simps [of n])
    then show ?thesis
      by (simp add: ungroup_digits toDigits_digits toDigits_nonempty toDigits_value)
  next
    case False
    let ?a = "48 + n mod 1000 div 100" and ?b = "48 + n mod 1000 div 10 mod 10"
      and ?c = "48 + n mod 1000 mod 10"
    have da: "isDigit ?a" and db: "isDigit ?b" and dc: "isDigit ?c"
      by (rule isDigit_offset, simp add: less_mult_imp_div_less)+
    have g: "groupDigits n = groupDigits (n div 1000) @ [44, ?a, ?b, ?c]"
      using False by (simp add: groupDigits.simps [of n])
    have f: "filter (\<lambda>c. c \<notin> currencySymbols) (groupDigits n)
             = filter (\<lambda>c. c \<notin> currencySymbols) (groupDigits (n div 1000)) @ [?a, ?b, ?c]"
      using da db dc unfolding g by (simp add: digit_not_symbol) (simp add: currencySymbols_def)
    have ih: "(\<forall>c \<in> set (filter (\<lambda>c. c \<notin> currencySymbols) (groupDigits (n div 1000))). isDigit c)"
      "filter (\<lambda>c. c \<notin> currencySymbols) (groupDigits (n div 1000)) \<noteq> []"
      "digitsValue (filter (\<lambda>c. c \<notin> currencySymbols) (groupDigits (n div 1000))) = n div 1000"
      using 1 [OF False] by blast+
    have "digitsValue (filter (\<lambda>c. c \<notin> currencySymbols) (groupDigits n))
          = n div 1000 * 1000
            + (n mod 1000 div 100 * 100 + n mod 1000 div 10 mod 10 * 10 + n mod 1000 mod 10)"
      unfolding f digitsValue_snoc3 ih(3) by (simp add: algebra_simps)
    also have "\<dots> = n div 1000 * 1000 + n mod 1000"
      by (simp only: three_digits)
    also have "\<dots> = n" by simp
    finally have v: "digitsValue (filter (\<lambda>c. c \<notin> currencySymbols) (groupDigits n)) = n" .
    from ih(1) da db dc have "\<forall>c \<in> set (filter (\<lambda>c. c \<notin> currencySymbols) (groupDigits n)). isDigit c"
      unfolding f by auto
    moreover have "filter (\<lambda>c. c \<notin> currencySymbols) (groupDigits n) \<noteq> []"
      unfolding f by simp
    ultimately show ?thesis using v by blast
  qed
qed

lemma takeWhile_digits_stop:
  "\<forall>c \<in> set ds. isDigit c \<Longrightarrow> \<not> isDigit x \<Longrightarrow> takeWhile isDigit (ds @ x # r) = ds"
  by (induction ds) auto

lemma dropWhile_digits_stop:
  "\<forall>c \<in> set ds. isDigit c \<Longrightarrow> \<not> isDigit x \<Longrightarrow> dropWhile isDigit (ds @ x # r) = x # r"
  by (induction ds) auto

lemma digit_not_space: "isDigit c \<Longrightarrow> \<not> isWhiteSpace c"
  by (auto simp: isDigit_def isWhiteSpace_def)

lemma unsignedDecimal_fixed:
  assumes "\<forall>c \<in> set ds. isDigit c" "ds \<noteq> []" "isDigit a" "isDigit b"
  shows "unsignedDecimal (ds @ [46, a, b]) = Some (real (digitsValue ds * 100 + (a - 48) * 10 + (b - 48)) / 100)"
proof -
  have nd: "\<not> isDigit 46" by (simp add: isDigit_def)
  have t: "takeWhile isDigit (ds @ [46, a, b]) = ds"
    using takeWhile_digits_stop [OF assms(1) nd, of "[a, b]"] by simp
  have d: "dropWhile isDigit (ds @ [46, a, b]) = [46, a, b]"
    using dropWhile_digits_stop [OF assms(1) nd, of "[a, b]"] by simp
  have v: "digitsValue (ds @ [a, b]) = (digitsValue ds * 10 + (a - 48)) * 10 + (b - 48)"
    by (simp add: digitsValue_def)
  show ?thesis
    using assms by (simp add: unsignedDecimal_def t d v exponentPart_def scale10_def algebra_simps)
qed

lemma dropWhile_hd: "xs \<noteq> [] \<Longrightarrow> \<not> P (hd xs) \<Longrightarrow> dropWhile P xs = xs"
  by (cases xs) auto

lemma trim_id:
  assumes "s \<noteq> []" "\<not> isWhiteSpace (hd s)" "\<not> isWhiteSpace (last s)"
  shows "trim s = s"
proof -
  have 1: "dropWhile isWhiteSpace s = s"
    using assms by (simp add: dropWhile_hd)
  have 2: "dropWhile isWhiteSpace (rev s) = rev s"
    using assms by (simp add: dropWhile_hd hd_rev)
  show ?thesis by (simp add: trim_def 1 2)
qed

lemma two_digits: "(c::nat) div 100 * 100 + c mod 100 div 10 * 10 + c mod 10 = c"
proof -
  have a: "c mod 100 mod 10 = c mod 10" by (simp add: mod_mod_cancel)
  have "c div 100 * 100 + c mod 100 div 10 * 10 + c mod 10
        = c div 100 * 100 + (c mod 100 div 10 * 10 + c mod 100 mod 10)"
    by (simp only: a add.assoc)
  also have "\<dots> = c div 100 * 100 + c mod 100" by (simp only: div_mult_mod_eq)
  also have "\<dots> = c" by (simp only: div_mult_mod_eq)
  finally show ?thesis .
qed

lemma parse_format: "parseCurrency (JString (formatCurrency x)) = Inr (round2 x)"
proof -
  let ?c = "roundCents x"
  let ?g = "filter (\<lambda>c. c \<notin> currencySymbols) (groupDigits (?c div 100))"
  let ?a = "48 + ?c mod 100 div 10" and ?b = "48 + ?c mod 10"
  let ?body = "?g @ [46, ?a, ?b]"
  have da: "isDigit ?a" and db: "isDigit ?b"
    by (rule isDigit_offset, simp add: less_mult_imp_div_less)+
  have g: "\<forall>c \<in> set ?g. isDigit c" "?g \<noteq> []" "digitsValue ?g = ?c div 100"
    using groupDigits_ungroup [of "?c div 100"] by blast+
  obtain c r where gc: "?g = c # r" using g(2) by (cases ?g) auto
  then have cd: "isDigit c" using g(1) by auto
  then have c_plain: "c \<noteq> 43" "c \<noteq> 45" "\<not> isWhiteSpace c"
    by (auto simp: isDigit_def isWhiteSpace_def)
  have ud: "unsignedDecimal ?body
            = Some (real (digitsValue ?g * 100 + (?a - 48) * 10 + (?b - 48)) / 100)"
    by (rule unsignedDecimal_fixed [OF g(1) g(2) da db])
  have val: "digitsValue ?g * 100 + (?a - 48) * 10 + (?b - 48) = ?c"
    using two_digits [of ?c] by (simp add: g(3))
  have last_ok: "\<not> isWhiteSpace (last ?body)"
    using db by (simp add: digit_not_space)
  show ?thesis
  proof (cases "x < 0")
    case False
    have fmt: "formatCurrency x = [36] @ groupDigits (?c div 100) @ [46, ?a, ?b]"
      using False by (simp add: formatCurrency_def)
    have flt: "filter (\<lambda>c. c \<notin> currencySymbols) (formatCurrency x) = ?body"
      unfolding fmt using da db by (simp add: digit_not_symbol) (simp add: currencySymbols_def)
    have "\<not> isWhiteSpace (hd ?body)"
      using c_plain by (simp add: gc)
    then have tr: "trim ?body = ?body"
      using last_ok by (intro trim_id) auto
    have pf: "parseFloat ?body = unsignedDecimal ?body"
      using c_plain by (simp add: parseFloat_def gc)
    have ne: "formatCurrency x \<noteq> []" by (simp add: fmt)
    have "parseCurrency (JString (formatCurrency x))
          = Inr (real (digitsValue ?g * 100 + (?a - 48) * 10 + (?b - 48)) / 100)"
      by (simp add: parseCurrency_def ne flt tr pf ud)
    then show ?thesis unfolding val using False by (simp add: round2_def)
  next
    case True
    have fmt: "formatCurrency x = [45, 36] @ groupDigits (?c div 100) @ [46, ?a, ?b]"
      using True by (simp add: formatCurrency_def)
    have flt: "filter (\<lambda>c. c \<notin> currencySymbols) (formatCurrency x) = 45 # ?body"
      unfolding fmt using da db by (simp add: digit_not_symbol) (simp add: currencySymbols_def)
    have sp: "\<not> isWhiteSpace 45" by (simp add: isWhiteSpace_def)
    have "last (45 # ?body) = last ?body" by simp
    then have tr: "trim (45 # ?body) = 45 # ?body"
      using last_ok sp by (intro trim_id) auto
    have pf: "parseFloat (45 # ?body) = map_option uminus (unsignedDecimal ?body)"
      using sp by (simp add: parseFloat_def)
    have ne: "formatCurrency x \<noteq> []" by (simp add: fmt)
    have "parseCurrency (JString (formatCurrency x))
          = Inr (- (real (digitsValue ?g * 100 + (?a - 48) * 10 + (?b - 48)) / 100))"
      by (simp add: parseCurrency_def ne flt tr pf ud)
    then show ?thesis unfolding val using True by (simp add: round2_def)
  qed
qed

lemma roundCents_nonneg: "0 \<le> x \<Longrightarrow> real (roundCents x) = of_int \<lfloor>x * 100 + 1 / 2\<rfloor>"
proof -
  assume "0 \<le> x"
  then have "0 \<le> \<lfloor>x * 100 + 1 / 2\<rfloor>" by simp
  with \<open>0 \<le> x\<close> show ?thesis by (simp add: roundCents_def)
qed

lemma round2_exact:
  assumes "x * 100 = of_int n"
  shows "round2 x = x"
proof -
  have "\<bar>x\<bar> * 100 = of_int \<bar>n\<bar>"
    using assms by (simp add: abs_mult [symmetric] del: abs_mult)
  moreover have "\<lfloor>real_of_int \<bar>n\<bar> + 1 / 2\<rfloor> = \<bar>n\<bar>"
    using floor_add_int [of "1 / 2 :: real" "\<bar>n\<bar>"] by (simp add: add.commute)
  ultimately have "roundCents x = nat \<bar>n\<bar>" by (simp add: roundCents_def)
  then have "real (roundCents x) = \<bar>x\<bar> * 100"
    using \<open>\<bar>x\<bar> * 100 = of_int \<bar>n\<bar>\<close> by simp
  then show ?thesis by (simp add: round2_def)
qed

text \<open>
  Claim C8 (currency round trip): for every non-negative amount \<open>x\<close>,
  \<open>parseCurrency (formatCurrency x)\<close> is \<open>x\<close> rounded to two decimal places, that is
  the integer nearest to \<open>100 x\<close> (a tie goes up) divided by 100. Numbers are exact here;
  the rounding of doubles is not modelled.
\<close>

theorem currency_round_trip:
  assumes "0 \<le> x"
  shows "parseCurrency (JString (formatCurrency x)) = Inr (of_int \<lfloor>x * 100 + 1 / 2\<rfloor> / 100)"
  using assms by (simp add: parse_format round2_def roundCents_nonneg)

theorem currency_round_trip_witness:
  "(0::real) \<le> 1234567 / 1000
   \<and> formatCurrency (1234567 / 1000) = js ''$1,234.57''
   \<and> parseCurrency (JString (formatCurrency (1234567 / 1000))) = Inr (123457 / 100)"
proof -
  have h: "(0::real) \<le> 1234567 / 1000" by simp
  have f: "formatCurrency (1234567 / 1000) = js ''$1,234.57''"
    by (simp add: currency_eval)
  show ?thesis using h f currency_round_trip [OF h] by simp
qed

section \<open>Proofs: the budget optimizer\<close>

lemmas double_eval =
  binade_def scale2_def roundTiesToEven_def ulpExponent_def toDouble_def addDouble_def
  bitLength.simps

subsection \<open>Double precision\<close>

lemma bitLength_bounds: "0 < n \<Longrightarrow> 2 ^ (bitLength n - 1) \<le> n \<and> n < 2 ^ bitLength n"
proof (induction n rule: bitLength.induct)
  case (1 n)
  show ?case
  proof (cases "n div 2 = 0")
    case True
    with 1(2) have "n = 1" by (simp add: div_eq_0_iff)
    then show ?thesis by (simp add: bitLength.simps)
  next
    case False
    then have p: "0 < n div 2" by simp
    from 1(1) [OF _ p] 1(2)
    have ih: "2 ^ (bitLength (n div 2) - 1) \<le> n div 2" "n div 2 < 2 ^ bitLength (n div 2)"
      by simp_all
    have b: "bitLength n = Suc (bitLength (n div 2))"
      using 1(2) by (subst bitLength.simps) simp
    have pos: "0 < bitLength (n div 2)"
      using p by (subst bitLength.simps) simp
    then obtain k where k: "bitLength (n div 2) = Suc k" by (cases "bitLength (n div 2)") auto
    from ih k have "2 ^ k \<le> n div 2" "n div 2 < 2 ^ Suc k" by simp_all
    then have "2 * 2 ^ k \<le> n" "n < 2 * 2 ^ Suc k" by arith+
    then show ?thesis by (simp add: b k)
  qed
qed

lemma real_power_le: "2 ^ k \<le> (n::nat) \<Longrightarrow> (2::real) ^ k \<le> real n"
  by (metis of_nat_le_iff of_nat_numeral of_nat_power)

lemma real_less_power: "(n::nat) < 2 ^ k \<Longrightarrow> real n + 1 \<le> 2 ^ k"
proof -
  assume "n < 2 ^ k"
  then have "n + 1 \<le> 2 ^ k" by simp
  then have "real (n + 1) \<le> real (2 ^ k)" by (rule iffD2 [OF of_nat_le_iff])
  then show ?thesis by simp
qed

lemma binade_ge1:
  assumes "1 \<le> x"
  shows "2 ^ nat (binade x) \<le> x \<and> x < 2 ^ nat (binade x + 1) \<and> 0 \<le> binade x"
proof -
  define n where "n = nat \<lfloor>x\<rfloor>"
  from assms have n: "0 < n" "real n \<le> x" "x < real n + 1"
    unfolding n_def by (simp_all add: le_floor_iff)
  from bitLength_bounds [OF n(1)] have b: "2 ^ (bitLength n - 1) \<le> n" "n < 2 ^ bitLength n"
    by simp_all
  from n(1) have pos: "0 < bitLength n" by (subst bitLength.simps) simp
  have e: "binade x = int (bitLength n) - 1" using assms by (simp add: binade_def n_def)
  with pos have ne: "nat (binade x) = bitLength n - 1" "nat (binade x + 1) = bitLength n"
    by simp_all
  have l: "2 ^ (bitLength n - 1) \<le> x"
    by (rule order_trans [OF real_power_le [OF b(1)] n(2)])
  have u: "x < 2 ^ bitLength n"
    by (rule less_le_trans [OF n(3) real_less_power [OF b(2)]])
  from e pos have "0 \<le> binade x" by simp
  with l u show ?thesis unfolding ne by simp
qed

lemma binade_lt1:
  assumes "0 < x" "x < 1"
  shows "1 / 2 ^ nat (- binade x) \<le> x \<and> x < 2 / 2 ^ nat (- binade x) \<and> binade x < 0"
proof -
  define m where "m = nat (\<lceil>1 / x\<rceil> - 1)"
  from assms have y: "1 < 1 / x" by simp
  then have c: "2 \<le> \<lceil>1 / x\<rceil>" by (simp add: le_ceiling_iff)
  then have m0: "0 < m" unfolding m_def by simp
  from c have "0 \<le> \<lceil>1 / x\<rceil> - 1" by arith
  then have "real (nat (\<lceil>1 / x\<rceil> - 1)) = of_int (\<lceil>1 / x\<rceil> - 1)" by (rule of_nat_nat)
  then have rm: "real m = of_int \<lceil>1 / x\<rceil> - 1" unfolding m_def by (simp only: of_int_diff of_int_1)
  have m: "real m < 1 / x" "1 / x \<le> real m + 1"
    unfolding rm by linarith+
  from bitLength_bounds [OF m0] have b: "2 ^ (bitLength m - 1) \<le> m" "m < 2 ^ bitLength m"
    by simp_all
  from m0 have pos: "0 < bitLength m" by (subst bitLength.simps) simp
  have e: "binade x = - int (bitLength m)" using assms by (simp add: binade_def m_def)
  then have ne: "nat (- binade x) = bitLength m" by simp
  have "1 / x \<le> 2 ^ bitLength m"
    by (rule order_trans [OF m(2) real_less_power [OF b(2)]])
  with assms(1) have l: "1 / 2 ^ bitLength m \<le> x"
    by (simp add: field_simps)
  have "(2::real) ^ (bitLength m - 1) < 1 / x"
    by (rule le_less_trans [OF real_power_le [OF b(1)] m(1)])
  moreover from pos have "(2::real) ^ bitLength m = 2 * 2 ^ (bitLength m - 1)"
    by (cases "bitLength m") simp_all
  ultimately have u: "x < 2 / 2 ^ bitLength m"
    using assms(1) by (simp add: field_simps)
  from e pos have "binade x < 0" by simp
  with l u show ?thesis unfolding ne by simp
qed

lemma binade_bounds:
  assumes "0 < x"
  shows "scale2 1 (binade x) \<le> x \<and> x < scale2 1 (binade x + 1)"
proof (cases "1 \<le> x")
  case True
  from binade_ge1 [OF True] show ?thesis by (simp add: scale2_def)
next
  case False
  with assms binade_lt1 [of x]
  have b: "1 / 2 ^ nat (- binade x) \<le> x" "x < 2 / 2 ^ nat (- binade x)" "binade x < 0"
    by simp_all
  show ?thesis
  proof (cases "binade x = - 1")
    case True
    with b show ?thesis by (simp add: scale2_def)
  next
    case False
    with b(3) have n: "binade x + 1 < 0" by simp
    then obtain k where k: "nat (- binade x) = Suc k" "nat (- binade x - 1) = k"
      by (cases "nat (- binade x)") auto
    from b n show ?thesis by (simp add: scale2_def k)
  qed
qed

lemma scale2_mult: "scale2 m e = m * scale2 1 e"
  by (simp add: scale2_def)

lemma scale2_pos: "0 < scale2 1 e"
  by (simp add: scale2_def)

lemma scale2_inverse: "scale2 1 e * scale2 1 (- e) = 1"
  by (simp add: scale2_def)

lemma roundTiesToEven_error: "\<bar>of_int (roundTiesToEven y) - y\<bar> \<le> 1 / 2"
  unfolding roundTiesToEven_def by (auto simp: abs_le_iff)

text \<open>
  \<open>toDouble x\<close> is a multiple of the unit in the last place of \<open>x\<close>, at most half a unit
  away from \<open>x\<close>.
\<close>

lemma toDouble_error: "\<bar>toDouble x - x\<bar> \<le> scale2 1 (ulpExponent x) / 2"
proof (cases "x = 0")
  case True
  then show ?thesis using scale2_pos [of "ulpExponent x"] by (simp add: toDouble_def)
next
  case False
  define u where "u = scale2 1 (ulpExponent x)"
  define y where "y = scale2 x (- ulpExponent x)"
  have u: "0 < u" unfolding u_def by (rule scale2_pos)
  have y: "y * u = x"
    unfolding y_def u_def scale2_mult [of x] using scale2_inverse [of "ulpExponent x"]
    by (simp add: mult.assoc mult.commute)
  from False have t: "toDouble x = of_int (roundTiesToEven y) * u"
    unfolding toDouble_def y_def u_def by (simp add: scale2_mult [symmetric])
  have "of_int (roundTiesToEven y) * u - x = (of_int (roundTiesToEven y) - y) * u"
    unfolding y [symmetric] by (simp add: left_diff_distrib)
  then have "\<bar>toDouble x - x\<bar> = \<bar>of_int (roundTiesToEven y) - y\<bar> * \<bar>u\<bar>"
    unfolding t by (simp only: abs_mult)
  also have "\<dots> = \<bar>of_int (roundTiesToEven y) - y\<bar> * u"
    using u by simp
  also have "\<dots> \<le> 1 / 2 * u"
    using roundTiesToEven_error [of y] u by (intro mult_right_mono) simp_all
  finally show ?thesis by (simp add: u_def)
qed

lemma roundTiesToEven_of_int: "roundTiesToEven (of_int z) = z"
  by (simp add: roundTiesToEven_def)

lemma toDouble_of_int:
  assumes "\<bar>n\<bar> < 2 ^ 53"
  shows "toDouble (of_int n) = of_int n"
proof (cases "n = 0")
  case True
  then show ?thesis by (simp add: toDouble_def)
next
  case False
  define x :: real where "x = of_int n"
  from False have x1: "1 \<le> \<bar>x\<bar>" unfolding x_def
    by (metis of_int_abs of_int_1_le_iff zero_less_abs_iff int_one_le_iff_zero_less)
  from assms have x2: "\<bar>x\<bar> < 2 ^ 53" unfolding x_def
    by (metis of_int_abs of_int_less_iff of_int_numeral of_int_power)
  define e where "e = binade \<bar>x\<bar>"
  from binade_ge1 [OF x1] have b: "2 ^ nat e \<le> \<bar>x\<bar>" "0 \<le> e" by (simp_all add: e_def)
  from b(1) x2 have "(2::real) ^ nat e < 2 ^ 53" by (rule le_less_trans)
  then have "nat e < 53" by (simp only: power_strict_increasing_iff [of 2] one_less_numeral_iff semiring_norm)
  with b(2) have e52: "e \<le> 52" by simp
  define k where "k = nat (52 - e)"
  from b(2) e52 have u: "ulpExponent x = - int k"
    by (simp add: ulpExponent_def e_def [symmetric] k_def)
  have s1: "scale2 x (- (- int k)) = of_int (n * 2 ^ k)"
    by (simp add: scale2_def x_def)
  have s2: "scale2 (of_int (n * 2 ^ k)) (- int k) = x"
    by (simp add: scale2_def x_def)
  from False have "x \<noteq> 0" by (simp add: x_def)
  then have "toDouble x = scale2 (of_int (roundTiesToEven (scale2 x (- (- int k))))) (- int k)"
    unfolding toDouble_def u by simp
  also have "\<dots> = x" unfolding s1 roundTiesToEven_of_int s2 ..
  finally show ?thesis by (simp add: x_def)
qed

text \<open>The sums of the introduction, and the double of one tenth.\<close>

lemma double_examples:
  "toDouble (1 / 10) = 3602879701896397 / 2 ^ 55"
  "addDouble (1 / 10) (2 / 10) = 5404319552844596 / 2 ^ 54"
  "addDouble (3 / 10) (16 / 100) = 8286623314361712 / 2 ^ 54"
  "toDouble (46 / 100) = 8286623314361713 / 2 ^ 54"
  by (simp_all add: double_eval)

subsection \<open>The optimizer\<close>

lemmas optimizer_eval =
  optimizeBudget_def optimizeBudgetTry_def analyzeBudgetAllocation_def analyzeDay_def addCost_def
  addCostDouble_def double_eval
  optimizeCategory_def optimizeAccommodation_def optimizeTransportation_def optimizeActivities_def
  optimizeActivitiesDay_def reduceActivity_def sortedActivities_def adjustedReduction_def
  reducedCost_def reductionPercentage_def addBudgetAlternatives_def budgetAlternative_def
  calculateTotalCost_def totalDay_def
  exampleItinerary_def exampleDay_def exampleActivity_def usd_def

lemma forEachE_rel:
  "forEachE f xs = Inr ys \<Longrightarrow> list_all2 (\<lambda>x y. f x = Inr y) xs ys"
proof (induction xs arbitrary: ys)
  case Nil
  then show ?case by simp
next
  case (Cons x xs)
  then show ?case by (auto split: sum.splits)
qed

lemma forEachE_ok:
  "list_all2 (\<lambda>x y. f x = Inr y) xs ys \<Longrightarrow> forEachE f xs = Inr ys"
  by (induction xs ys rule: list_all2_induct) auto

lemma forEachE_total:
  "(\<forall>x \<in> set xs. \<exists>y. f x = Inr y) \<Longrightarrow> \<exists>ys. forEachE f xs = Inr ys"
proof (induction xs)
  case Nil
  then show ?case by simp
next
  case (Cons x xs)
  then obtain y ys where "f x = Inr y" "forEachE f xs = Inr ys" by auto
  then show ?case by simp
qed

lemma parses_amount: "parses v \<Longrightarrow> parseCurrency v = Inr (amount v)"
  by (auto simp: parses_def amount_def)

lemma parseCurrency_Inr_iff: "parseCurrency v = Inr x \<longleftrightarrow> parses v \<and> x = amount v"
  by (auto simp: parses_def amount_def)

lemma parses_format [simp]: "parses (JString (formatCurrency x))"
  by (simp add: parses_def parse_format)

lemma amount_format [simp]: "amount (JString (formatCurrency x)) = round2 x"
  by (simp add: amount_def parse_format)

lemma parseCurrency_error: "parseCurrency v = Inl e \<Longrightarrow> e = TypeError"
  by (auto simp: parseCurrency_def split: jsval.splits if_splits option.splits)

lemma not_parses: "\<not> parses v \<Longrightarrow> parseCurrency v = Inl TypeError"
  by (cases "parseCurrency v") (auto simp: parses_def dest: parseCurrency_error)

lemma addCost_parses: "parses c \<Longrightarrow> addCost t c = Inr (t + amount c)"
  by (simp add: addCost_def parses_amount)

lemma addCost_not_parses: "\<not> parses c \<Longrightarrow> addCost t c = Inl TypeError"
  by (simp add: addCost_def not_parses)

lemma addCost_Inr_iff: "addCost t c = Inr t' \<longleftrightarrow> parses c \<and> t' = t + amount c"
  by (auto simp: addCost_def parses_def amount_def split: sum.splits)

lemma addCostDouble_parses: "parses c \<Longrightarrow> addCostDouble t c = Inr (addDouble t (amount c))"
  by (simp add: addCostDouble_def parses_amount)

lemma addCostDouble_not_parses: "\<not> parses c \<Longrightarrow> addCostDouble t c = Inl TypeError"
  by (simp add: addCostDouble_def not_parses)

lemma foldE_addCostDouble:
  "\<forall>a \<in> set acts. parses (activity.cost a) \<Longrightarrow>
   foldE (\<lambda>t a. addCostDouble t (activity.cost a)) t acts
     = Inr (foldl addDouble t (map (\<lambda>a. amount (activity.cost a)) acts))"
  by (induction acts arbitrary: t) (simp_all add: addCostDouble_parses)

lemma foldE_addCost:
  "foldE (\<lambda>t a. addCost t (activity.cost a)) t acts = Inr t'
   \<longleftrightarrow> (\<forall>a \<in> set acts. parses (activity.cost a)) \<and> t' = t + sum_list (map (\<lambda>a. amount (activity.cost a)) acts)"
proof (induction acts arbitrary: t)
  case Nil
  then show ?case by auto
next
  case (Cons a acts)
  show ?case
  proof (cases "addCost t (activity.cost a)")
    case (Inl e)
    then have "\<not> parses (activity.cost a)"
      by (auto simp: addCost_def parses_def split: sum.splits)
    with Inl show ?thesis by simp
  next
    case (Inr t1)
    then have p: "parses (activity.cost a)" and t1: "t1 = t + amount (activity.cost a)"
      by (simp_all add: addCost_Inr_iff)
    show ?thesis using Inr p Cons.IH [of t1] by (auto simp: t1)
  qed
qed

lemma totalDay_Inr_iff: "totalDay t d = Inr t' \<longleftrightarrow> dayParses d \<and> t' = t + dayCost d"
proof (cases "parses (accommodation.cost (day.accommodation d))")
  case False
  then show ?thesis by (simp add: totalDay_def dayParses_def addCost_not_parses)
next
  case a: True
  show ?thesis
  proof (cases "parses (transportation.cost (day.transportation d))")
    case False
    with a show ?thesis by (simp add: totalDay_def dayParses_def addCost_parses addCost_not_parses)
  next
    case True
    with a show ?thesis
      by (auto simp: totalDay_def dayParses_def dayCost_def addCost_parses foldE_addCost)
  qed
qed

lemma calculateTotalCost_aux:
  "foldE totalDay t ds = Inr t' \<longleftrightarrow> (\<forall>d \<in> set ds. dayParses d) \<and> t' = t + sum_list (map dayCost ds)"
proof (induction ds arbitrary: t)
  case Nil
  then show ?case by auto
next
  case (Cons d ds)
  show ?case
  proof (cases "totalDay t d")
    case (Inl e)
    then have "\<not> dayParses d" by (metis totalDay_Inr_iff sum.distinct(1))
    with Inl show ?thesis by simp
  next
    case (Inr t1)
    then have p: "dayParses d" and t1: "t1 = t + dayCost d"
      by (simp_all add: totalDay_Inr_iff)
    show ?thesis using Inr p Cons.IH [of t1] by (auto simp: t1)
  qed
qed

lemma calculateTotalCost_Inr_iff:
  "calculateTotalCost ds = Inr t \<longleftrightarrow> (\<forall>d \<in> set ds. dayParses d) \<and> t = sum_list (map dayCost ds)"
  by (simp add: calculateTotalCost_def calculateTotalCost_aux)

lemma forEachE_map:
  "(\<And>x. x \<in> set xs \<Longrightarrow> f x = Inr (g x)) \<Longrightarrow> forEachE f xs = Inr (map g xs)"
  by (induction xs) auto

lemma forEachE_fail:
  assumes "x \<in> set xs" "f x = Inl e" "\<forall>y e'. f y = Inl e' \<longrightarrow> e' = e"
  shows "forEachE f xs = Inl e"
  using assms(1)
proof (induction xs)
  case Nil
  then show ?case by simp
next
  case (Cons a xs)
  show ?case
  proof (cases "f a")
    case (Inl e')
    with assms(3) have "e' = e" by blast
    with Inl show ?thesis by simp
  next
    case (Inr y)
    with assms(2) have "x \<noteq> a" by auto
    with Cons have "forEachE f xs = Inl e" by simp
    with Inr show ?thesis by simp
  qed
qed

lemma foldE_fail:
  assumes "x \<in> set xs" "\<forall>s. f s x = Inl e" "\<forall>s y e'. f s y = Inl e' \<longrightarrow> e' = e"
  shows "foldE f s xs = Inl e"
  using assms(1)
proof (induction xs arbitrary: s)
  case Nil
  then show ?case by simp
next
  case (Cons a xs)
  show ?case
  proof (cases "f s a")
    case (Inl e')
    with assms(3) have "e' = e" by blast
    with Inl show ?thesis by simp
  next
    case (Inr s')
    with assms(2) have "x \<noteq> a" by auto
    with Cons have "foldE f s' xs = Inl e" by simp
    with Inr show ?thesis by simp
  qed
qed

lemma analyzeDay_parses:
  "dayParses d \<Longrightarrow> analyzeDay b d =
     Inr \<lparr>budgetBreakdown.accommodation =
            addDouble (budgetBreakdown.accommodation b)
              (amount (accommodation.cost (day.accommodation d))),
          activities = foldl addDouble (budgetBreakdown.activities b)
              (map (\<lambda>a. amount (activity.cost a)) (day.activities d)),
          transportation =
            addDouble (budgetBreakdown.transportation b)
              (amount (transportation.cost (day.transportation d)))\<rparr>"
  by (simp add: analyzeDay_def dayParses_def addCostDouble_parses foldE_addCostDouble)

lemma analyzeDay_not_parses: "\<not> dayParses d \<Longrightarrow> analyzeDay b d = Inl TypeError"
proof -
  assume n: "\<not> dayParses d"
  show ?thesis
  proof (cases "parses (accommodation.cost (day.accommodation d))")
    case False
    then show ?thesis by (simp add: analyzeDay_def addCostDouble_not_parses)
  next
    case a: True
    show ?thesis
    proof (cases "parses (transportation.cost (day.transportation d))")
      case False
      with a show ?thesis
        by (simp add: analyzeDay_def addCostDouble_parses addCostDouble_not_parses)
    next
      case True
      with a n obtain x where x: "x \<in> set (day.activities d)" "\<not> parses (activity.cost x)"
        by (auto simp: dayParses_def)
      have "foldE (\<lambda>t a. addCostDouble t (activity.cost a)) (budgetBreakdown.activities b)
              (day.activities d) = Inl TypeError"
      proof (rule foldE_fail [OF x(1)])
        show "\<forall>s. addCostDouble s (activity.cost x) = Inl TypeError"
          by (simp add: addCostDouble_not_parses x(2))
        show "\<forall>s y e'. addCostDouble s (activity.cost y) = Inl e' \<longrightarrow> e' = TypeError"
          by (metis addCostDouble_not_parses addCostDouble_parses sum.inject(1) sum.distinct(1))
      qed
      with a True show ?thesis by (simp add: analyzeDay_def addCostDouble_parses)
    qed
  qed
qed

lemma analyze_aux:
  "\<forall>d \<in> set ds. dayParses d \<Longrightarrow>
   foldE analyzeDay b ds =
     Inr \<lparr>budgetBreakdown.accommodation =
            foldl addDouble (budgetBreakdown.accommodation b)
              (map (\<lambda>d. amount (accommodation.cost (day.accommodation d))) ds),
          activities =
            foldl addDouble (budgetBreakdown.activities b)
              (concat (map (\<lambda>d. map (\<lambda>a. amount (activity.cost a)) (day.activities d)) ds)),
          transportation =
            foldl addDouble (budgetBreakdown.transportation b)
              (map (\<lambda>d. amount (transportation.cost (day.transportation d))) ds)\<rparr>"
proof (induction ds arbitrary: b)
  case Nil
  then show ?case by simp
next
  case (Cons d ds)
  then show ?case by (simp add: analyzeDay_parses)
qed

lemma analyze_parses:
  "\<forall>d \<in> set (days it). dayParses d \<Longrightarrow> analyzeBudgetAllocation it = Inr (categoryTotals (days it))"
  by (simp add: analyzeBudgetAllocation_def analyze_aux categoryTotals_def sumDouble_def)

lemma analyze_not_parses:
  assumes "d \<in> set (days it)" "\<not> dayParses d"
  shows "analyzeBudgetAllocation it = Inl TypeError"
  unfolding analyzeBudgetAllocation_def
proof (rule foldE_fail [OF assms(1)])
  show "\<forall>s. analyzeDay s d = Inl TypeError" by (simp add: analyzeDay_not_parses assms(2))
  show "\<forall>s y e'. analyzeDay s y = Inl e' \<longrightarrow> e' = TypeError"
    by (metis analyzeDay_parses analyzeDay_not_parses sum.inject(1) sum.distinct(1))
qed

lemma findIndex_Some:
  "findIndex p xs = Some k \<Longrightarrow> k < length xs \<and> p (xs ! k) \<and> (\<forall>j < k. \<not> p (xs ! j))"
proof (induction xs arbitrary: k)
  case Nil
  then show ?case by simp
next
  case (Cons x xs)
  show ?case
  proof (cases "p x")
    case True
    with Cons.prems show ?thesis by simp
  next
    case False
    with Cons.prems obtain k' where k': "findIndex p xs = Some k'" "k = Suc k'" by auto
    from Cons.IH [OF k'(1)] False show ?thesis
      by (auto simp: k'(2) less_Suc_eq_0_disj)
  qed
qed

lemma findIndex_distinct:
  "distinct (map f xs) \<Longrightarrow> k < length xs \<Longrightarrow> findIndex (\<lambda>a. f a = f (xs ! k)) xs = Some k"
proof (induction xs arbitrary: k)
  case Nil
  then show ?case by simp
next
  case (Cons x xs)
  show ?case
  proof (cases k)
    case 0
    then show ?thesis by simp
  next
    case (Suc k')
    with Cons.prems have "k' < length xs" "xs ! k' \<in> set xs" by auto
    with Cons.prems have "f x \<noteq> f (xs ! k')" by auto
    with Cons Suc \<open>k' < length xs\<close> show ?thesis by simp
  qed
qed

lemma allParse_update:
  "allParse A \<Longrightarrow> parses (activity.cost v) \<Longrightarrow> allParse (A[k := v])"
  unfolding allParse_def using set_update_subset_insert [of A k v] by auto

lemma names_update:
  "k < length A \<Longrightarrow> map activity.name (A[k := (A ! k)\<lparr>activity.cost := c\<rparr>]) = map activity.name A"
  by (simp add: map_update list_update_same_conv)

lemma reduceActivity_ok:
  assumes "allParse A" "pos < length A"
  shows "\<exists>A'. reduceActivity r A (index, pos) = Inr A' \<and> length A' = length A \<and> allParse A'
              \<and> map activity.name A' = map activity.name A"
proof -
  from assms have p: "parseCurrency (activity.cost (A ! pos)) = Inr (amount (activity.cost (A ! pos)))"
    by (simp add: allParse_def parses_amount)
  show ?thesis
  proof (cases "findIndex (\<lambda>a. activity.name a = activity.name (A ! pos)) A")
    case None
    with p assms show ?thesis by (simp add: reduceActivity_def)
  next
    case (Some k)
    then have "k < length A" using findIndex_Some by fastforce
    with p Some assms show ?thesis
      by (simp add: reduceActivity_def allParse_update names_update)
  qed
qed

lemma foldE_reduceActivity_ok:
  assumes "allParse A" "\<forall>p \<in> set ps. snd p < length A"
  shows "\<exists>A'. foldE (reduceActivity r) A ps = Inr A' \<and> length A' = length A \<and> allParse A'
              \<and> map activity.name A' = map activity.name A"
  using assms
proof (induction ps arbitrary: A)
  case Nil
  then show ?case by simp
next
  case (Cons p ps)
  obtain index pos where p: "p = (index, pos)" by (cases p)
  with Cons.prems have "pos < length A" by simp
  from reduceActivity_ok [OF Cons.prems(1) this, of r index]
  obtain A1 where A1: "reduceActivity r A (index, pos) = Inr A1" "length A1 = length A"
    "allParse A1" "map activity.name A1 = map activity.name A" by blast
  from Cons.prems(2) A1(2) have "\<forall>q \<in> set ps. snd q < length A1" by simp
  from Cons.IH [OF A1(3) this] obtain A' where
    "foldE (reduceActivity r) A1 ps = Inr A'" "length A' = length A1" "allParse A'"
    "map activity.name A' = map activity.name A1" by blast
  with A1 p show ?case by simp
qed

lemma forEachE_length: "forEachE f xs = Inr ys \<Longrightarrow> length ys = length xs"
  by (drule forEachE_rel) (rule list_all2_lengthD [symmetric])

lemma sortedActivities_set: "set (sortedActivities costs) = {0..<length costs}"
  by (simp add: sortedActivities_def)

lemma sortedActivities_length: "length (sortedActivities costs) = length costs"
  by (simp add: sortedActivities_def)

lemma activity_costs:
  "allParse acts \<Longrightarrow>
   forEachE (\<lambda>a. parseCurrency (activity.cost a)) acts = Inr (map (\<lambda>a. amount (activity.cost a)) acts)"
  by (rule forEachE_map) (simp add: allParse_def parses_amount)

lemma optimizeActivitiesDay_ok:
  assumes "dayParses d"
  shows "\<exists>acts. optimizeActivitiesDay r d = Inr (d\<lparr>day.activities := acts\<rparr>)
           \<and> length acts = length (day.activities d) \<and> allParse acts
           \<and> map activity.name acts = map activity.name (day.activities d)"
proof -
  let ?A = "day.activities d"
  let ?costs = "map (\<lambda>a. amount (activity.cost a)) ?A"
  from assms have ap: "allParse ?A" by (simp add: dayParses_def allParse_def)
  have c: "forEachE (\<lambda>a. parseCurrency (activity.cost a)) ?A = Inr ?costs"
    by (rule activity_costs [OF ap])
  have "\<forall>p \<in> set (zip [0..<length ?costs] (sortedActivities ?costs)). snd p < length ?A"
    using sortedActivities_set [of ?costs] by (auto dest!: set_zip_rightD)
  from foldE_reduceActivity_ok [OF ap this, of r] obtain A' where
    "foldE (reduceActivity r) ?A (zip [0..<length ?costs] (sortedActivities ?costs)) = Inr A'"
    "length A' = length ?A" "allParse A'" "map activity.name A' = map activity.name ?A" by blast
  then show ?thesis by (auto simp: optimizeActivitiesDay_def c)
qed

lemma dayParses_costs:
  "dayParses d \<longleftrightarrow> parses (accommodation.cost (day.accommodation d))
     \<and> parses (transportation.cost (day.transportation d)) \<and> allParse (day.activities d)"
  by (simp add: dayParses_def allParse_def)

lemma optimizeAccommodation_ok:
  assumes "\<forall>d \<in> set ds. dayParses d"
  shows "optimizeAccommodation ds s t =
     Inr (map (\<lambda>d. d\<lparr>day.accommodation := (day.accommodation d)\<lparr>accommodation.cost :=
            JString (formatCurrency (reducedCost (amount (accommodation.cost (day.accommodation d)))
              (reductionPercentage s t (1 / 2))))\<rparr>\<rparr>) ds)"
  unfolding optimizeAccommodation_def
  by (rule forEachE_map) (use assms in \<open>simp add: dayParses_def parses_amount\<close>)

lemma optimizeTransportation_ok:
  assumes "\<forall>d \<in> set ds. dayParses d"
  shows "optimizeTransportation ds s t =
     Inr (map (\<lambda>d. d\<lparr>day.transportation := (day.transportation d)\<lparr>transportation.cost :=
            JString (formatCurrency (reducedCost (amount (transportation.cost (day.transportation d)))
              (reductionPercentage s t (9 / 20))))\<rparr>\<rparr>) ds)"
  unfolding optimizeTransportation_def
  by (rule forEachE_map) (use assms in \<open>simp add: dayParses_def parses_amount\<close>)

lemma list_all2_right:
  "list_all2 P xs ys \<Longrightarrow> y \<in> set ys \<Longrightarrow> \<exists>x \<in> set xs. P x y"
  by (induction rule: list_all2_induct) auto

lemma optimizeActivities_ok:
  assumes "\<forall>d \<in> set ds. dayParses d"
  shows "\<exists>ds'. optimizeActivities ds s t = Inr ds'
           \<and> list_all2 (\<lambda>d d'. \<exists>acts. d' = d\<lparr>day.activities := acts\<rparr> \<and> allParse acts
                 \<and> map activity.name acts = map activity.name (day.activities d)) ds ds'"
proof -
  let ?f = "optimizeActivitiesDay (reductionPercentage s t (4 / 10))"
  have "\<forall>d \<in> set ds. \<exists>d'. ?f d = Inr d'"
    using assms optimizeActivitiesDay_ok by blast
  then obtain ds' where ds': "forEachE ?f ds = Inr ds'"
    using forEachE_total by blast
  then have "list_all2 (\<lambda>d d'. ?f d = Inr d') ds ds'" by (rule forEachE_rel)
  then have "list_all2 (\<lambda>d d'. \<exists>acts. d' = d\<lparr>day.activities := acts\<rparr> \<and> allParse acts
                 \<and> map activity.name acts = map activity.name (day.activities d)) ds ds'"
  proof (rule list.rel_mono_strong)
    fix d d' assume "d \<in> set ds" "?f d = Inr d'"
    with assms optimizeActivitiesDay_ok [of d "reductionPercentage s t (4 / 10)"]
    show "\<exists>acts. d' = d\<lparr>day.activities := acts\<rparr> \<and> allParse acts
                 \<and> map activity.name acts = map activity.name (day.activities d)" by auto
  qed
  with ds' show ?thesis by (auto simp: optimizeActivities_def)
qed

lemma optimizeCategory_ok:
  assumes "\<forall>d \<in> set ds. dayParses d"
  shows "\<exists>ds'. optimizeCategory b ds s = Inr ds' \<and> (\<forall>d \<in> set ds'. dayParses d)"
proof -
  consider (acc) "budgetBreakdown.accommodation b > budgetBreakdown.activities b
         \<and> budgetBreakdown.accommodation b > budgetBreakdown.transportation b"
    | (act) "\<not> (budgetBreakdown.accommodation b > budgetBreakdown.activities b
         \<and> budgetBreakdown.accommodation b > budgetBreakdown.transportation b)"
        "budgetBreakdown.activities b > budgetBreakdown.transportation b"
    | (tr) "\<not> (budgetBreakdown.accommodation b > budgetBreakdown.activities b
         \<and> budgetBreakdown.accommodation b > budgetBreakdown.transportation b)"
        "\<not> budgetBreakdown.activities b > budgetBreakdown.transportation b"
    by blast
  then show ?thesis
  proof cases
    case acc
    then show ?thesis
      using assms by (auto simp: optimizeCategory_def optimizeAccommodation_ok dayParses_def)
  next
    case act
    from optimizeActivities_ok [OF assms, of s "budgetBreakdown.activities b"]
    obtain ds' where ds': "optimizeActivities ds s (budgetBreakdown.activities b) = Inr ds'"
      "list_all2 (\<lambda>d d'. \<exists>acts. d' = d\<lparr>day.activities := acts\<rparr> \<and> allParse acts
                 \<and> map activity.name acts = map activity.name (day.activities d)) ds ds'" by blast
    have "\<forall>d' \<in> set ds'. dayParses d'"
    proof
      fix d' assume "d' \<in> set ds'"
      from list_all2_right [OF ds'(2) this]
      obtain d acts where "d \<in> set ds" "d' = d\<lparr>day.activities := acts\<rparr>" "allParse acts"
        by blast
      with assms show "dayParses d'" by (auto simp: dayParses_costs)
    qed
    with act ds'(1) show ?thesis by (auto simp: optimizeCategory_def)
  next
    case tr
    then show ?thesis
      using assms by (auto simp: optimizeCategory_def optimizeTransportation_ok dayParses_def)
  qed
qed

lemma addBudgetAlternatives_ok:
  assumes "\<forall>d \<in> set ds. dayParses d"
  shows "addBudgetAlternatives ds =
     Inr (map (\<lambda>d. d\<lparr>alternativeActivities := Some (map alternativeOf (day.activities d))\<rparr>) ds)"
  unfolding addBudgetAlternatives_def
proof (rule forEachE_map)
  fix d assume "d \<in> set ds"
  with assms have "allParse (day.activities d)" by (simp add: dayParses_costs)
  then have "forEachE budgetAlternative (day.activities d) = Inr (map alternativeOf (day.activities d))"
    by (intro forEachE_map) (simp add: allParse_def budgetAlternative_def alternativeOf_def parses_amount)
  then show "(case forEachE budgetAlternative (day.activities d) of
          Inl e \<Rightarrow> Inl e
        | Inr alternatives \<Rightarrow> Inr (d\<lparr>alternativeActivities := Some alternatives\<rparr>))
        = Inr (d\<lparr>alternativeActivities := Some (map alternativeOf (day.activities d))\<rparr>)"
    by simp
qed

lemma optimizeBudgetTry_over:
  assumes "parseCurrency (totalCost it) = Inr currentCost" "\<not> currentCost \<le> totalBudget"
    and "\<forall>d \<in> set (days it). dayParses d"
  shows "\<exists>ds'. optimizeCategory (categoryTotals (days it)) (days it) (currentCost - totalBudget) = Inr ds'
           \<and> (\<forall>d \<in> set ds'. dayParses d)
           \<and> optimizeBudgetTry it totalBudget =
               Inr (it\<lparr>totalCost := JString (formatCurrency (sum_list (map dayCost ds'))),
                      days := map (\<lambda>d. d\<lparr>alternativeActivities :=
                                Some (map alternativeOf (day.activities d))\<rparr>) ds'\<rparr>)"
proof -
  from optimizeCategory_ok [OF assms(3)] obtain ds' where
    ds': "optimizeCategory (categoryTotals (days it)) (days it) (currentCost - totalBudget) = Inr ds'"
      "\<forall>d \<in> set ds'. dayParses d" by blast
  have t: "calculateTotalCost ds' = Inr (sum_list (map dayCost ds'))"
    using ds'(2) by (simp add: calculateTotalCost_Inr_iff)
  show ?thesis
    using assms ds' by (simp add: optimizeBudgetTry_def analyze_parses t addBudgetAlternatives_ok)
qed

lemma foldE_snoc:
  "foldE f s (xs @ [x]) = (case foldE f s xs of Inl e \<Rightarrow> Inl e | Inr s' \<Rightarrow> f s' x)"
  by (induction xs arbitrary: s) (auto split: sum.splits)

lemma reduceActivity_distinct:
  assumes "distinct (map activity.name A)" "allParse A" "pos < length A"
  shows "reduceActivity r A (index, pos) = Inr (A[pos := reducedActivity r (A ! pos) index])"
proof -
  from assms have p: "parseCurrency (activity.cost (A ! pos)) = Inr (amount (activity.cost (A ! pos)))"
    by (simp add: allParse_def parses_amount)
  have f: "findIndex (\<lambda>a. activity.name a = activity.name (A ! pos)) A = Some pos"
    by (rule findIndex_distinct [OF assms(1) assms(3)])
  show ?thesis by (simp add: reduceActivity_def p f reducedActivity_def)
qed

lemma foldE_reduceActivity_distinct:
  assumes "distinct (map activity.name A)" "allParse A"
    and "distinct (map snd ps)" "\<forall>p \<in> set ps. snd p < length A"
  shows "\<exists>A'. foldE (reduceActivity r) A ps = Inr A' \<and> length A' = length A
           \<and> map activity.name A' = map activity.name A \<and> allParse A'
           \<and> (\<forall>(index, pos) \<in> set ps. A' ! pos = reducedActivity r (A ! pos) index)
           \<and> (\<forall>q < length A. q \<notin> snd ` set ps \<longrightarrow> A' ! q = A ! q)"
  using assms(3,4)
proof (induction ps rule: rev_induct)
  case Nil
  with assms show ?case by simp
next
  case (snoc p ps)
  obtain index pos where p: "p = (index, pos)" by (cases p)
  from snoc.prems p have new: "pos \<notin> snd ` set ps" and lt: "pos < length A"
    and d: "distinct (map snd ps)" and b: "\<forall>p \<in> set ps. snd p < length A" by auto
  from snoc.IH [OF d b] obtain A1 where A1: "foldE (reduceActivity r) A ps = Inr A1"
    "length A1 = length A" "map activity.name A1 = map activity.name A" "allParse A1"
    "\<forall>(index, pos) \<in> set ps. A1 ! pos = reducedActivity r (A ! pos) index"
    "\<forall>q < length A. q \<notin> snd ` set ps \<longrightarrow> A1 ! q = A ! q" by blast
  from A1(6) new lt have same: "A1 ! pos = A ! pos" by simp
  have step: "reduceActivity r A1 (index, pos) = Inr (A1[pos := reducedActivity r (A ! pos) index])"
    using reduceActivity_distinct [of A1 pos r index] assms(1) A1(2,3,4) lt same by simp
  let ?A' = "A1[pos := reducedActivity r (A ! pos) index]"
  have 1: "foldE (reduceActivity r) A (ps @ [p]) = Inr ?A'"
    by (simp add: foldE_snoc A1(1) p step)
  have 2: "length ?A' = length A" by (simp add: A1(2))
  have 3: "map activity.name ?A' = map activity.name A"
    using names_update [of pos A1] lt A1(2,3) same by (simp add: reducedActivity_def)
  have 4: "allParse ?A'"
    by (rule allParse_update [OF A1(4)]) (simp add: reducedActivity_def)
  have 5: "\<forall>(i, q) \<in> set (ps @ [p]). ?A' ! q = reducedActivity r (A ! q) i"
  proof (clarify)
    fix i q assume iq: "(i, q) \<in> set (ps @ [p])"
    show "?A' ! q = reducedActivity r (A ! q) i"
    proof (cases "(i, q) = p")
      case True
      with p lt A1(2) show ?thesis by simp
    next
      case False
      with iq have in_ps: "(i, q) \<in> set ps" by simp
      then have "q \<in> snd ` set ps" by force
      with new have "q \<noteq> pos" by auto
      with A1(5) in_ps show ?thesis by auto
    qed
  qed
  have 6: "\<forall>q < length A. q \<notin> snd ` set (ps @ [p]) \<longrightarrow> ?A' ! q = A ! q"
    using A1(6) p by auto
  from 1 2 3 4 5 6 show ?case by blast
qed

lemma hd_insort_key:
  "hd (insort_key f x ys) = (if ys = [] \<or> f x \<le> f (hd ys) then x else hd ys)"
  by (cases ys) auto

lemma hd_sort_key:
  fixes f :: "'a \<Rightarrow> 'k::linorder"
  shows "xs \<noteq> [] \<Longrightarrow> \<exists>ys zs. xs = ys @ hd (sort_key f xs) # zs
           \<and> (\<forall>y \<in> set ys. f (hd (sort_key f xs)) < f y)
           \<and> (\<forall>z \<in> set zs. f (hd (sort_key f xs)) \<le> f z)"
proof (induction xs)
  case Nil
  then show ?case by simp
next
  case (Cons x xs)
  show ?case
  proof (cases "xs = []")
    case True
    have "[x] = [] @ x # [] \<and> (\<forall>y \<in> set []. f x < f y) \<and> (\<forall>z \<in> set []. f x \<le> f z)"
      by simp
    then have "\<exists>ys zs. [x] = ys @ x # zs \<and> (\<forall>y \<in> set ys. f x < f y) \<and> (\<forall>z \<in> set zs. f x \<le> f z)"
      by blast
    with True show ?thesis by simp
  next
    case False
    let ?m = "hd (sort_key f xs)"
    from Cons.IH [OF False] obtain ys zs where yz: "xs = ys @ ?m # zs"
      "\<forall>y \<in> set ys. f ?m < f y" "\<forall>z \<in> set zs. f ?m \<le> f z" by blast
    have ne: "sort_key f xs \<noteq> []" by (metis False length_0_conv length_sort)
    have h: "hd (sort_key f (x # xs)) = (if f x \<le> f ?m then x else ?m)"
      using ne by (simp add: hd_insort_key)
    show ?thesis
    proof (cases "f x \<le> f ?m")
      case True
      have "\<forall>z \<in> set xs. f x \<le> f z"
      proof
        fix z assume "z \<in> set xs"
        then have "z \<in> set ys \<or> z = ?m \<or> z \<in> set zs" by (subst (asm) yz(1)) auto
        with yz(2,3) have "f ?m \<le> f z" by (auto simp: less_imp_le)
        with True show "f x \<le> f z" by simp
      qed
      then have "x # xs = [] @ x # xs \<and> (\<forall>y \<in> set []. f x < f y) \<and> (\<forall>z \<in> set xs. f x \<le> f z)"
        by simp
      then have "\<exists>ys zs. x # xs = ys @ x # zs \<and> (\<forall>y \<in> set ys. f x < f y)
          \<and> (\<forall>z \<in> set zs. f x \<le> f z)"
        by blast
      then show ?thesis unfolding h using True by simp
    next
      case nle: False
      then have "x # xs = (x # ys) @ ?m # zs \<and> (\<forall>y \<in> set (x # ys). f ?m < f y)
          \<and> (\<forall>z \<in> set zs. f ?m \<le> f z)"
        using yz by auto
      then have "\<exists>ys' zs'. x # xs = ys' @ ?m # zs' \<and> (\<forall>y \<in> set ys'. f ?m < f y)
          \<and> (\<forall>z \<in> set zs'. f ?m \<le> f z)"
        by blast
      then show ?thesis unfolding h using nle by simp
    qed
  qed
qed

lemma findIndex_first:
  "k < length xs \<Longrightarrow> p (xs ! k) \<Longrightarrow> \<forall>j < k. \<not> p (xs ! j) \<Longrightarrow> findIndex p xs = Some k"
proof (induction xs arbitrary: k)
  case Nil
  then show ?case by simp
next
  case (Cons x xs)
  show ?case
  proof (cases k)
    case 0
    with Cons.prems show ?thesis by simp
  next
    case (Suc k')
    with Cons.prems have "\<not> p x" by auto
    moreover from Cons.prems Suc have "k' < length xs" "p (xs ! k')" "\<forall>j < k'. \<not> p (xs ! j)"
      by auto
    ultimately show ?thesis using Cons.IH [of k'] Suc by simp
  qed
qed

lemma hd_sortedActivities:
  assumes "costs \<noteq> []"
  shows "hd (sortedActivities costs) = mostExpensive costs"
proof -
  let ?n = "length costs"
  let ?f = "\<lambda>i. - (costs ! i)"
  let ?m = "hd (sort_key ?f [0..<?n])"
  from assms have "[0..<?n] \<noteq> []" by simp
  from hd_sort_key [OF this, of ?f] obtain ys zs where yz: "[0..<?n] = ys @ ?m # zs"
    "\<forall>y \<in> set ys. ?f ?m < ?f y" "\<forall>z \<in> set zs. ?f ?m \<le> ?f z" by blast
  have len: "length ys < ?n"
    using arg_cong [OF yz(1), of length] by simp
  have m: "?m = length ys"
    using nth_upt [of 0 "length ys" ?n] len nth_append_length [of ys ?m zs] yz(1) by simp
  have before: "costs ! j < costs ! ?m" if "j < ?m" for j
  proof -
    from that m len have "[0..<?n] ! j = j" by simp
    moreover from that m have "(ys @ ?m # zs) ! j = ys ! j" by (simp add: nth_append)
    ultimately have "ys ! j = j" using yz(1) by simp
    with that m have "j \<in> set ys" by (metis nth_mem)
    with yz(2) show ?thesis by auto
  qed
  have all: "costs ! i \<le> costs ! ?m" if "i < ?n" for i
  proof -
    from that have "i \<in> set [0..<?n]" by simp
    then have "i \<in> set ys \<or> i = ?m \<or> i \<in> set zs" by (subst (asm) yz(1)) auto
    with yz(2,3) show ?thesis by auto
  qed
  have mlt: "?m < ?n" using m len by simp
  have 1: "\<forall>c' \<in> set costs. c' \<le> costs ! ?m"
    using all by (auto simp: in_set_conv_nth)
  have 2: "\<forall>j < ?m. \<not> (\<forall>c' \<in> set costs. c' \<le> costs ! j)"
  proof (intro allI impI)
    fix j assume "j < ?m"
    from before [OF this] mlt show "\<not> (\<forall>c' \<in> set costs. c' \<le> costs ! j)"
      by (metis nth_mem not_le)
  qed
  have "findIndex (\<lambda>c. \<forall>c' \<in> set costs. c' \<le> c) costs = Some ?m"
    by (rule findIndex_first [OF mlt 1 2])
  then show ?thesis by (simp add: sortedActivities_def mostExpensive_def)
qed

lemma optimizeActivitiesDay_distinct:
  assumes "distinct (map activity.name (day.activities d))" and "allParse (day.activities d)"
  shows "optimizeActivitiesDay r d =
     Inr (d\<lparr>day.activities :=
            map (\<lambda>q. reducedActivity r (day.activities d ! q)
                   (if q = mostExpensive (map (\<lambda>a. amount (activity.cost a)) (day.activities d))
                    then 0 else 1))
              [0..<length (day.activities d)]\<rparr>)"
proof -
  let ?A = "day.activities d"
  let ?costs = "map (\<lambda>a. amount (activity.cost a)) ?A"
  let ?n = "length ?A"
  let ?S = "sortedActivities ?costs"
  let ?ps = "zip [0..<length ?costs] ?S"
  have c: "forEachE (\<lambda>a. parseCurrency (activity.cost a)) ?A = Inr ?costs"
    by (rule activity_costs [OF assms(2)])
  have lenS: "length ?S = ?n" by (simp add: sortedActivities_length)
  have setS: "set ?S = {0..<?n}" by (simp add: sortedActivities_set)
  have dS: "distinct ?S" by (simp add: sortedActivities_def)
  have snd_ps: "map snd ?ps = ?S" by (simp add: lenS)
  have d_ps: "distinct (map snd ?ps)" using dS snd_ps by simp
  have b_ps: "\<forall>p \<in> set ?ps. snd p < ?n"
    using setS by (auto dest!: set_zip_rightD)
  from foldE_reduceActivity_distinct [OF assms(1) assms(2) d_ps b_ps, of r]
  obtain A' where A': "foldE (reduceActivity r) ?A ?ps = Inr A'" "length A' = ?n"
    "\<forall>(index, pos) \<in> set ?ps. A' ! pos = reducedActivity r (?A ! pos) index" by blast
  have "A' = map (\<lambda>q. reducedActivity r (?A ! q) (if q = mostExpensive ?costs then 0 else 1)) [0..<?n]"
  proof (rule nth_equalityI)
    show "length A' = length (map (\<lambda>q. reducedActivity r (?A ! q)
             (if q = mostExpensive ?costs then 0 else 1)) [0..<?n])"
      by (simp add: A'(2))
  next
    fix q assume "q < length A'"
    then have q: "q < ?n" by (simp add: A'(2))
    then have "q \<in> set ?S" by (simp add: setS)
    then obtain i where i: "i < ?n" "?S ! i = q" by (auto simp: in_set_conv_nth lenS)
    then have "(i, q) \<in> set ?ps"
      unfolding in_set_zip using lenS by (intro exI [of _ i]) simp
    with A'(3) have v: "A' ! q = reducedActivity r (?A ! q) i" by auto
    have ne: "?costs \<noteq> []" using q by auto
    have "?S \<noteq> []" using lenS q by auto
    then have "hd ?S = ?S ! 0" by (simp add: hd_conv_nth)
    then have top: "mostExpensive ?costs = ?S ! 0" using hd_sortedActivities [OF ne] by simp
    have "0 < length ?S" "i < length ?S" using i(1) q lenS by auto
    then have "?S ! i = ?S ! 0 \<longleftrightarrow> i = 0"
      by (rule nth_eq_iff_index_eq [OF dS, of i 0, rotated])
    then have "i = 0 \<longleftrightarrow> q = mostExpensive ?costs"
      unfolding top i(2) by simp
    then have "reducedActivity r (?A ! q) i
               = reducedActivity r (?A ! q) (if q = mostExpensive ?costs then 0 else 1)"
      by (simp add: reducedActivity_def adjustedReduction_def)
    with v q show "A' ! q = map (\<lambda>q. reducedActivity r (?A ! q)
             (if q = mostExpensive ?costs then 0 else 1)) [0..<?n] ! q"
      by simp
  qed
  with A'(1) show ?thesis by (simp add: optimizeActivitiesDay_def c)
qed

lemma analyze_Inr:
  assumes "analyzeBudgetAllocation it = Inr b"
  shows "(\<forall>d \<in> set (days it). dayParses d) \<and> b = categoryTotals (days it)"
proof -
  have all: "\<forall>d \<in> set (days it). dayParses d"
  proof (rule ccontr)
    assume "\<not> (\<forall>d \<in> set (days it). dayParses d)"
    then obtain d where "d \<in> set (days it)" "\<not> dayParses d" by blast
    then have "analyzeBudgetAllocation it = Inl TypeError" by (rule analyze_not_parses)
    with assms show False by simp
  qed
  with assms show ?thesis by (simp add: analyze_parses)
qed

lemma costs_alternatives:
  "accommodationCosts (map (\<lambda>d. d\<lparr>alternativeActivities := f d\<rparr>) ds) = accommodationCosts ds"
  "transportationCosts (map (\<lambda>d. d\<lparr>alternativeActivities := f d\<rparr>) ds) = transportationCosts ds"
  "activityCosts (map (\<lambda>d. d\<lparr>alternativeActivities := f d\<rparr>) ds) = activityCosts ds"
  by (simp_all add: accommodationCosts_def transportationCosts_def activityCosts_def)

lemma costs_accommodation:
  "accommodationCosts (map (\<lambda>d. d\<lparr>day.accommodation := (day.accommodation d)\<lparr>accommodation.cost := f d\<rparr>\<rparr>) ds)
     = map f ds"
  "transportationCosts (map (\<lambda>d. d\<lparr>day.accommodation := g d\<rparr>) ds) = transportationCosts ds"
  "activityCosts (map (\<lambda>d. d\<lparr>day.accommodation := g d\<rparr>) ds) = activityCosts ds"
  by (simp_all add: accommodationCosts_def transportationCosts_def activityCosts_def)

lemma costs_transportation:
  "transportationCosts (map (\<lambda>d. d\<lparr>day.transportation := (day.transportation d)\<lparr>transportation.cost := f d\<rparr>\<rparr>) ds)
     = map f ds"
  "accommodationCosts (map (\<lambda>d. d\<lparr>day.transportation := g d\<rparr>) ds) = accommodationCosts ds"
  "activityCosts (map (\<lambda>d. d\<lparr>day.transportation := g d\<rparr>) ds) = activityCosts ds"
  by (simp_all add: accommodationCosts_def transportationCosts_def activityCosts_def)

lemma costs_activities:
  assumes "list_all2 (\<lambda>d d'. \<exists>acts. d' = d\<lparr>day.activities := acts\<rparr> \<and> P d acts) ds ds'"
  shows "accommodationCosts ds' = accommodationCosts ds"
    and "transportationCosts ds' = transportationCosts ds"
  using assms
  by (induction ds ds' rule: list_all2_induct)
     (auto simp: accommodationCosts_def transportationCosts_def)

lemma dayCost_alternatives: "dayCost (d\<lparr>alternativeActivities := x\<rparr>) = dayCost d"
  by (simp add: dayCost_def)

text \<open>
  Claim C1 (cost conservation), as amended. On the over-budget path, when no cost of the
  draft makes \<open>parseCurrency\<close> throw, the \<open>totalCost\<close> of the returned itinerary parses
  to the sum of its day costs rounded to two decimals. (On the pass-through path the
  itinerary is returned as it came, whatever its \<open>totalCost\<close> says: see the counterexample.)
\<close>

theorem cost_conservation_over_budget:
  assumes "parseCurrency (totalCost it) = Inr currentCost" and "totalBudget < currentCost"
    and "\<forall>d \<in> set (days it). dayParses d"
  shows "parseCurrency (totalCost (optimizeBudget it totalBudget))
         = Inr (round2 (sum_list (map dayCost (days (optimizeBudget it totalBudget)))))"
proof -
  from assms(2) have nb: "\<not> currentCost \<le> totalBudget" by simp
  from optimizeBudgetTry_over [OF assms(1) nb assms(3)] obtain ds' where
    "optimizeBudgetTry it totalBudget =
       Inr (it\<lparr>totalCost := JString (formatCurrency (sum_list (map dayCost ds'))),
              days := map (\<lambda>d. d\<lparr>alternativeActivities :=
                        Some (map alternativeOf (day.activities d))\<rparr>) ds'\<rparr>)"
    by blast
  then show ?thesis
    by (simp add: optimizeBudget_def parse_format dayCost_alternatives o_def)
qed

lemma optimizeBudgetTry_Inl:
  assumes "optimizeBudgetTry it totalBudget = Inl e"
  shows "e = TypeError \<and> (\<not> parses (totalCost it)
           \<or> (totalBudget < amount (totalCost it) \<and> (\<exists>d \<in> set (days it). \<not> dayParses d)))"
proof (cases "parses (totalCost it)")
  case False
  with assms show ?thesis by (simp add: optimizeBudgetTry_def not_parses)
next
  case True
  then have p: "parseCurrency (totalCost it) = Inr (amount (totalCost it))"
    by (rule parses_amount)
  show ?thesis
  proof (cases "amount (totalCost it) \<le> totalBudget")
    case True
    with assms p show ?thesis by (simp add: optimizeBudgetTry_def)
  next
    case over: False
    show ?thesis
    proof (cases "\<forall>d \<in> set (days it). dayParses d")
      case True
      from optimizeBudgetTry_over [OF p over True] assms show ?thesis by auto
    next
      case False
      then obtain d where d: "d \<in> set (days it)" "\<not> dayParses d" by blast
      then have "analyzeBudgetAllocation it = Inl TypeError" by (rule analyze_not_parses)
      with assms p over d True show ?thesis by (auto simp: optimizeBudgetTry_def)
    qed
  qed
qed

text \<open>
  Claim C5 (fail-safe): \<open>optimizeBudget\<close> is a total function, and whenever its \<open>try\<close>
  block throws, it returns its argument. In the model the only exception is the
  \<open>TypeError\<close> of \<open>parseCurrency\<close> on a cost that is a non-zero number, raised for the
  \<open>totalCost\<close> or, on the over-budget path, for a cost of some day.
\<close>

theorem optimizeBudget_fail_safe:
  assumes "optimizeBudgetTry it totalBudget = Inl e"
  shows "optimizeBudget it totalBudget = it \<and> e = TypeError
         \<and> (\<not> parses (totalCost it)
             \<or> (totalBudget < amount (totalCost it) \<and> (\<exists>d \<in> set (days it). \<not> dayParses d)))"
  using assms optimizeBudgetTry_Inl [OF assms] by (simp add: optimizeBudget_def)

lemma list_all2_map_eq: "list_all2 (\<lambda>x y. y = g x) xs ys \<Longrightarrow> ys = map g xs"
  by (induction rule: list_all2_induct) auto

lemma optimizeAccommodation_Inr:
  assumes "optimizeAccommodation ds s t = Inr ds'"
  shows "ds' = map (\<lambda>d. d\<lparr>day.accommodation := (day.accommodation d)\<lparr>accommodation.cost :=
            JString (formatCurrency (reducedCost (amount (accommodation.cost (day.accommodation d)))
              (reductionPercentage s t (1 / 2))))\<rparr>\<rparr>) ds"
proof (rule list_all2_map_eq)
  from assms have "list_all2 (\<lambda>d d'.
        (case parseCurrency (accommodation.cost (day.accommodation d)) of
          Inl e \<Rightarrow> Inl e
        | Inr currentCost \<Rightarrow>
            Inr (d\<lparr>day.accommodation := (day.accommodation d)\<lparr>accommodation.cost :=
                   JString (formatCurrency (reducedCost currentCost
                     (reductionPercentage s t (1 / 2))))\<rparr>\<rparr>)) = Inr d') ds ds'"
    unfolding optimizeAccommodation_def by (rule forEachE_rel)
  then show "list_all2 (\<lambda>d d'. d' = d\<lparr>day.accommodation := (day.accommodation d)\<lparr>accommodation.cost :=
            JString (formatCurrency (reducedCost (amount (accommodation.cost (day.accommodation d)))
              (reductionPercentage s t (1 / 2))))\<rparr>\<rparr>) ds ds'"
    by (rule list_all2_mono) (auto simp: amount_def split: sum.splits)
qed

lemma optimizeTransportation_Inr:
  assumes "optimizeTransportation ds s t = Inr ds'"
  shows "ds' = map (\<lambda>d. d\<lparr>day.transportation := (day.transportation d)\<lparr>transportation.cost :=
            JString (formatCurrency (reducedCost (amount (transportation.cost (day.transportation d)))
              (reductionPercentage s t (9 / 20))))\<rparr>\<rparr>) ds"
proof (rule list_all2_map_eq)
  from assms have "list_all2 (\<lambda>d d'.
        (case parseCurrency (transportation.cost (day.transportation d)) of
          Inl e \<Rightarrow> Inl e
        | Inr currentCost \<Rightarrow>
            Inr (d\<lparr>day.transportation := (day.transportation d)\<lparr>transportation.cost :=
                   JString (formatCurrency (reducedCost currentCost
                     (reductionPercentage s t (9 / 20))))\<rparr>\<rparr>)) = Inr d') ds ds'"
    unfolding optimizeTransportation_def by (rule forEachE_rel)
  then show "list_all2 (\<lambda>d d'. d' = d\<lparr>day.transportation := (day.transportation d)\<lparr>transportation.cost :=
            JString (formatCurrency (reducedCost (amount (transportation.cost (day.transportation d)))
              (reductionPercentage s t (9 / 20))))\<rparr>\<rparr>) ds ds'"
    by (rule list_all2_mono) (auto simp: amount_def split: sum.splits)
qed

lemma forEachE_Inr_all: "forEachE f xs = Inr ys \<Longrightarrow> x \<in> set xs \<Longrightarrow> \<exists>y. f x = Inr y"
  by (induction xs arbitrary: ys) (auto split: sum.splits)

lemma optimizeActivitiesDay_Inr_parses:
  assumes "optimizeActivitiesDay r d = Inr d'"
  shows "allParse (day.activities d)"
proof -
  from assms obtain costs where
    "forEachE (\<lambda>a. parseCurrency (activity.cost a)) (day.activities d) = Inr costs"
    by (auto simp: optimizeActivitiesDay_def split: sum.splits)
  then show ?thesis
    unfolding allParse_def parses_def using forEachE_Inr_all by fastforce
qed

lemma optimizeActivities_nth:
  assumes "optimizeActivities ds s t = Inr ds'" "i < length ds"
  shows "optimizeActivitiesDay (reductionPercentage s t (4 / 10)) (ds ! i) = Inr (ds' ! i)"
proof -
  from assms(1) have "list_all2 (\<lambda>d d'. optimizeActivitiesDay (reductionPercentage s t (4 / 10)) d = Inr d') ds ds'"
    unfolding optimizeActivities_def by (rule forEachE_rel)
  with assms(2) show ?thesis by (simp add: list_all2_conv_all_nth)
qed

lemma optimizeActivities_distinct:
  assumes "optimizeActivities ds s t = Inr ds'" "i < length ds"
    and "distinct (map activity.name (day.activities (ds ! i)))"
  shows "ds' ! i = (ds ! i)\<lparr>day.activities :=
            map (\<lambda>q. reducedActivity (reductionPercentage s t (4 / 10)) (day.activities (ds ! i) ! q)
                   (if q = mostExpensive (map (\<lambda>a. amount (activity.cost a)) (day.activities (ds ! i)))
                    then 0 else 1))
              [0..<length (day.activities (ds ! i))]\<rparr>"
proof -
  have 1: "optimizeActivitiesDay (reductionPercentage s t (4 / 10)) (ds ! i) = Inr (ds' ! i)"
    by (rule optimizeActivities_nth [OF assms(1,2)])
  then have "allParse (day.activities (ds ! i))" by (rule optimizeActivitiesDay_Inr_parses)
  from optimizeActivitiesDay_distinct [OF assms(3) this, of "reductionPercentage s t (4 / 10)"] 1
  show ?thesis by simp
qed

lemma reductionPercentage_le: "reductionPercentage s t cap \<le> cap"
  by (simp add: reductionPercentage_def)


lemmas example_eval = exampleTie_def exampleCapped_def exampleDecimal_def

lemma costs_activities_all2:
  assumes "list_all2 (\<lambda>d d'. \<exists>acts. d' = d\<lparr>day.activities := acts\<rparr> \<and> P d acts) ds ds'"
  shows "accommodationCosts ds' = accommodationCosts ds \<and> transportationCosts ds' = transportationCosts ds"
  using assms
  by (induction ds ds' rule: list_all2_induct)
     (auto simp: accommodationCosts_def transportationCosts_def)

text \<open>
  Claim C4 (dominant category), as amended. On the over-budget path the three category
  totals are the double-precision running sums of the parsed costs, and exactly one
  category is rewritten, by the pass of that category, chosen by strict comparisons of
  these totals: accommodation when its total is strictly above both others; otherwise
  activities when their total is strictly above transportation's; otherwise
  transportation. The costs of the other two categories stay as they were. A tie therefore
  goes to the later category: with equal accommodation and activities totals above the
  transportation total, the activities are reduced. The totals compared are the sums as
  accumulated: amounts that add up to the same decimal value need not tie.
\<close>

theorem dominant_category:
  assumes "parseCurrency (totalCost it) = Inr currentCost" and "totalBudget < currentCost"
    and "analyzeBudgetAllocation it = Inr b"
  shows
    "b = categoryTotals (days it)
     \<and> (budgetBreakdown.activities b < budgetBreakdown.accommodation b
        \<and> budgetBreakdown.transportation b < budgetBreakdown.accommodation b \<longrightarrow>
        (\<exists>ds'. optimizeAccommodation (days it) (currentCost - totalBudget)
                 (budgetBreakdown.accommodation b) = Inr ds'
               \<and> accommodationCosts (days (optimizeBudget it totalBudget))
                   = accommodationCosts ds')
        \<and> activityCosts (days (optimizeBudget it totalBudget)) = activityCosts (days it)
        \<and> transportationCosts (days (optimizeBudget it totalBudget))
            = transportationCosts (days it))
     \<and> (\<not> (budgetBreakdown.activities b < budgetBreakdown.accommodation b
            \<and> budgetBreakdown.transportation b < budgetBreakdown.accommodation b)
        \<and> budgetBreakdown.transportation b < budgetBreakdown.activities b \<longrightarrow>
        (\<exists>ds'. optimizeActivities (days it) (currentCost - totalBudget)
                 (budgetBreakdown.activities b) = Inr ds'
               \<and> activityCosts (days (optimizeBudget it totalBudget)) = activityCosts ds')
        \<and> accommodationCosts (days (optimizeBudget it totalBudget))
            = accommodationCosts (days it)
        \<and> transportationCosts (days (optimizeBudget it totalBudget))
            = transportationCosts (days it))
     \<and> (\<not> (budgetBreakdown.activities b < budgetBreakdown.accommodation b
            \<and> budgetBreakdown.transportation b < budgetBreakdown.accommodation b)
        \<and> \<not> budgetBreakdown.transportation b < budgetBreakdown.activities b \<longrightarrow>
        (\<exists>ds'. optimizeTransportation (days it) (currentCost - totalBudget)
                 (budgetBreakdown.transportation b) = Inr ds'
               \<and> transportationCosts (days (optimizeBudget it totalBudget))
                   = transportationCosts ds')
        \<and> accommodationCosts (days (optimizeBudget it totalBudget))
            = accommodationCosts (days it)
        \<and> activityCosts (days (optimizeBudget it totalBudget)) = activityCosts (days it))"
proof -
  let ?s = "currentCost - totalBudget"
  let ?r = "optimizeBudget it totalBudget"
  from analyze_Inr [OF assms(3)] have all: "\<forall>d \<in> set (days it). dayParses d"
    and b: "b = categoryTotals (days it)" by simp_all
  from assms(2) have nb: "\<not> currentCost \<le> totalBudget" by simp
  from optimizeBudgetTry_over [OF assms(1) nb all] b obtain ds' where
    ds': "optimizeCategory b (days it) ?s = Inr ds'"
    and "optimizeBudgetTry it totalBudget =
       Inr (it\<lparr>totalCost := JString (formatCurrency (sum_list (map dayCost ds'))),
              days := map (\<lambda>d. d\<lparr>alternativeActivities :=
                        Some (map alternativeOf (day.activities d))\<rparr>) ds'\<rparr>)"
    by blast
  then have r: "days ?r = map (\<lambda>d. d\<lparr>alternativeActivities :=
                        Some (map alternativeOf (day.activities d))\<rparr>) ds'"
    by (simp add: optimizeBudget_def)
  have costs: "accommodationCosts (days ?r) = accommodationCosts ds'"
    "activityCosts (days ?r) = activityCosts ds'"
    "transportationCosts (days ?r) = transportationCosts ds'"
    unfolding r by (rule costs_alternatives)+
  have A: "(\<exists>ds''. optimizeAccommodation (days it) ?s (budgetBreakdown.accommodation b) = Inr ds''
               \<and> accommodationCosts ds' = accommodationCosts ds'')
        \<and> activityCosts ds' = activityCosts (days it)
        \<and> transportationCosts ds' = transportationCosts (days it)"
    if "budgetBreakdown.activities b < budgetBreakdown.accommodation b
        \<and> budgetBreakdown.transportation b < budgetBreakdown.accommodation b"
  proof -
    from that ds'
    have o: "optimizeAccommodation (days it) ?s (budgetBreakdown.accommodation b) = Inr ds'"
      by (auto simp: optimizeCategory_def split: if_splits)
    from optimizeAccommodation_Inr [OF o]
    have "activityCosts ds' = activityCosts (days it)
        \<and> transportationCosts ds' = transportationCosts (days it)"
      by (simp add: costs_accommodation)
    with o show ?thesis by blast
  qed
  have V: "(\<exists>ds''. optimizeActivities (days it) ?s (budgetBreakdown.activities b) = Inr ds''
               \<and> activityCosts ds' = activityCosts ds'')
        \<and> accommodationCosts ds' = accommodationCosts (days it)
        \<and> transportationCosts ds' = transportationCosts (days it)"
    if "\<not> (budgetBreakdown.activities b < budgetBreakdown.accommodation b
            \<and> budgetBreakdown.transportation b < budgetBreakdown.accommodation b)"
       "budgetBreakdown.transportation b < budgetBreakdown.activities b"
  proof -
    from that ds' have o: "optimizeActivities (days it) ?s (budgetBreakdown.activities b) = Inr ds'"
      by (auto simp: optimizeCategory_def split: if_splits)
    from optimizeActivities_ok [OF all, of ?s "budgetBreakdown.activities b"] o
    have "list_all2 (\<lambda>d d'. \<exists>acts. d' = d\<lparr>day.activities := acts\<rparr> \<and> allParse acts
                 \<and> map activity.name acts = map activity.name (day.activities d)) (days it) ds'"
      by simp
    from costs_activities_all2 [OF this] o show ?thesis by blast
  qed
  have T: "(\<exists>ds''. optimizeTransportation (days it) ?s (budgetBreakdown.transportation b) = Inr ds''
               \<and> transportationCosts ds' = transportationCosts ds'')
        \<and> accommodationCosts ds' = accommodationCosts (days it)
        \<and> activityCosts ds' = activityCosts (days it)"
    if "\<not> (budgetBreakdown.activities b < budgetBreakdown.accommodation b
            \<and> budgetBreakdown.transportation b < budgetBreakdown.accommodation b)"
       "\<not> budgetBreakdown.transportation b < budgetBreakdown.activities b"
  proof -
    from that ds'
    have o: "optimizeTransportation (days it) ?s (budgetBreakdown.transportation b) = Inr ds'"
      by (auto simp: optimizeCategory_def split: if_splits)
    from optimizeTransportation_Inr [OF o]
    have "accommodationCosts ds' = accommodationCosts (days it)
        \<and> activityCosts ds' = activityCosts (days it)"
      by (simp add: costs_transportation)
    with o show ?thesis by blast
  qed
  from A V T b show ?thesis unfolding costs by blast
qed

lemma tie_total: "parseCurrency (totalCost exampleTie) = Inr 210"
  by (simp add: example_eval optimizer_eval currency_eval)

lemma tie_analyze: "analyzeBudgetAllocation exampleTie
    = Inr \<lparr>budgetBreakdown.accommodation = 100, activities = 100, transportation = 10\<rparr>"
  by (simp add: example_eval optimizer_eval currency_eval)

lemma tie_result: "optimizeBudget exampleTie 200 =
    exampleItinerary (usd ''$198.00'')
     [(exampleDay (usd ''$100'') (usd ''$10'') [exampleActivity ''Museum'' (usd ''$88.00'')])
        \<lparr>alternativeActivities := Some [\<lparr>activity.name = js ''Budget Museum'',
             description = js ''A more affordable version of Museum.'', cost = usd ''$52.80'',
             type = js ''Cultural'', location = js ''Centre'', duration = js ''2 hours'',
             imageUrl = None\<rparr>]\<rparr>]"
  by (simp add: example_eval optimizer_eval currency_eval)

lemma decimal_total: "parseCurrency (totalCost exampleDecimal) = Inr 1"
  by (simp add: example_eval optimizer_eval currency_eval)

lemma decimal_analyze: "analyzeBudgetAllocation exampleDecimal
    = Inr \<lparr>budgetBreakdown.accommodation = 8286623314361713 / 2 ^ 54,
           activities = 8286623314361712 / 2 ^ 54,
           transportation = 5764607523034235 / 2 ^ 56\<rparr>"
  by (simp add: example_eval optimizer_eval currency_eval)

lemma decimal_accommodation:
  "optimizeAccommodation (days exampleDecimal) (1 - 1 / 2) (8286623314361713 / 2 ^ 54)
     = Inr [exampleDay (usd ''$0.23'') (usd ''$0.08'')
              [exampleActivity ''Museum'' (usd ''$0.30''), exampleActivity ''Tour'' (usd ''$0.16'')]]"
  by (simp add: example_eval optimizer_eval currency_eval)

text \<open>
  The claim's tie rule fails: accommodation and activities both total 100, transportation
  10; the accommodation cost is untouched and the activity is reduced.
\<close>

theorem dominant_category_counterexample:
  "analyzeBudgetAllocation exampleTie
     = Inr \<lparr>budgetBreakdown.accommodation = 100, activities = 100, transportation = 10\<rparr>
   \<and> accommodationCosts (days (optimizeBudget exampleTie 200)) = [usd ''$100'']
   \<and> accommodationCosts (days exampleTie) = [usd ''$100'']
   \<and> activityCosts (days (optimizeBudget exampleTie 200)) = [[usd ''$88.00'']]
   \<and> activityCosts (days exampleTie) = [[usd ''$100'']]"
  unfolding tie_result tie_analyze
  by (simp add: example_eval exampleItinerary_def exampleDay_def exampleActivity_def
      accommodationCosts_def activityCosts_def)

lemmas example_eval2 = example_eval exampleWithin_def exampleScenario_def exampleOverCap_def
  exampleBadCost_def exampleDuplicates_def

lemmas spec_eval = amount_def parses_def dayParses_def dayCost_def accommodationCosts_def
  transportationCosts_def activityCosts_def mostExpensive_def

text \<open>
  As stated (for both paths) the invariant fails: a draft within budget whose \<open>totalCost\<close>
  field says 100 while its days sum to 80 is returned unchanged.
\<close>

theorem cost_conservation_counterexample:
  "optimizeBudget exampleWithin 200 = exampleWithin
   \<and> calculateTotalCost (days (optimizeBudget exampleWithin 200)) = Inr 80
   \<and> parseCurrency (totalCost (optimizeBudget exampleWithin 200)) = Inr 100"
proof -
  have "optimizeBudget exampleWithin 200 = exampleWithin"
    by (simp add: example_eval2 optimizer_eval currency_eval)
  moreover have "calculateTotalCost (days exampleWithin) = Inr 80"
    by (simp add: example_eval2 optimizer_eval currency_eval)
  moreover have "parseCurrency (totalCost exampleWithin) = Inr 100"
    by (simp add: example_eval2 optimizer_eval currency_eval)
  ultimately show ?thesis by simp
qed

lemma scenario_result: "optimizeBudget exampleScenario 300 =
   exampleItinerary (usd ''$300.00'')
     [(exampleDay (usd ''$100.00'') (usd ''$10'')
        [exampleActivity ''Museum'' (usd ''$25''), exampleActivity ''Tour'' (usd ''$15'')])
        \<lparr>alternativeActivities := Some
           [alternativeOf (exampleActivity ''Museum'' (usd ''$25'')),
            alternativeOf (exampleActivity ''Tour'' (usd ''$15''))]\<rparr>,
      (exampleDay (usd ''$100.00'') (usd ''$10'')
        [exampleActivity ''Museum'' (usd ''$25''), exampleActivity ''Tour'' (usd ''$15'')])
        \<lparr>alternativeActivities := Some
           [alternativeOf (exampleActivity ''Museum'' (usd ''$25'')),
            alternativeOf (exampleActivity ''Tour'' (usd ''$15''))]\<rparr>]"
  by (simp add: example_eval2 optimizer_eval currency_eval alternativeOf_def amount_def)

theorem cost_conservation_over_budget_witness:
  "parseCurrency (totalCost exampleScenario) = Inr 340 \<and> (300::real) < 340
   \<and> list_all dayParses (days exampleScenario)
   \<and> sum_list (map dayCost (days (optimizeBudget exampleScenario 300))) = 300
   \<and> parseCurrency (totalCost (optimizeBudget exampleScenario 300)) = Inr 300"
proof -
  have h1: "parseCurrency (totalCost exampleScenario) = Inr 340"
    by (simp add: example_eval2 optimizer_eval currency_eval)
  have h2: "(300::real) < 340" by simp
  have h3: "\<forall>d \<in> set (days exampleScenario). dayParses d"
    by (simp add: example_eval2 optimizer_eval currency_eval spec_eval)
  have s: "sum_list (map dayCost (days (optimizeBudget exampleScenario 300))) = 300"
    unfolding scenario_result
    by (simp add: optimizer_eval currency_eval spec_eval)
  have "round2 300 = 300" by (rule round2_exact [of _ 30000]) simp
  with cost_conservation_over_budget [OF h1 h2 h3] s h1 h2 h3 show ?thesis
    by (simp add: list_all_iff)
qed

theorem optimizeBudget_fail_safe_witness:
  "optimizeBudgetTry exampleBadCost 300 = Inl TypeError
   \<and> optimizeBudget exampleBadCost 300 = exampleBadCost"
proof -
  have h: "optimizeBudgetTry exampleBadCost 300 = Inl TypeError"
    by (simp add: example_eval2 optimizer_eval currency_eval)
  from optimizeBudget_fail_safe [OF h] h show ?thesis by simp
qed

text \<open>
  Claim C2 (reduction bound), as amended. The percentage \<open>min (savingsNeeded / total, cap)\<close>
  never exceeds the category's cap. The accommodation and transportation passes multiply
  every cost by one minus that percentage, so a non-negative cost \<open>c\<close> becomes at least
  \<open>c * (1 - cap)\<close> before rounding. The activities pass multiplies the percentage by 1.2 for
  the first activity in cost order of each day: there it is at most 0.48, and at most 0.4
  for the others (stated for days with distinct activity names).
\<close>

theorem reduction_bounds:
  "(optimizeAccommodation ds s t = Inr dsA \<longrightarrow>
      accommodationCosts dsA
        = map (\<lambda>c. JString (formatCurrency (reducedCost (amount c)
                 (reductionPercentage s t (1 / 2))))) (accommodationCosts ds))
   \<and> (optimizeTransportation ds s t = Inr dsT \<longrightarrow>
      transportationCosts dsT
        = map (\<lambda>c. JString (formatCurrency (reducedCost (amount c)
                 (reductionPercentage s t (9 / 20))))) (transportationCosts ds))
   \<and> (optimizeActivities ds s t = Inr dsV \<and> i < length ds
        \<and> distinct (map activity.name (day.activities (ds ! i))) \<longrightarrow>
      map activity.cost (day.activities (dsV ! i))
        = map (\<lambda>q. JString (formatCurrency
                 (reducedCost (amount (activity.cost (day.activities (ds ! i) ! q)))
                    (adjustedReduction (reductionPercentage s t (4 / 10))
                       (if q = mostExpensive (map (\<lambda>a. amount (activity.cost a))
                                 (day.activities (ds ! i)))
                        then 0 else 1)))))
            [0..<length (day.activities (ds ! i))])
   \<and> reductionPercentage s t cap \<le> cap
   \<and> adjustedReduction (reductionPercentage s t (4 / 10)) 0 \<le> 12 / 25
   \<and> adjustedReduction (reductionPercentage s t (4 / 10)) 1 \<le> 4 / 10
   \<and> (0 \<le> c \<and> r \<le> cap \<longrightarrow> c * (1 - cap) \<le> reducedCost c r)"
proof -
  have A: "accommodationCosts dsA
        = map (\<lambda>c. JString (formatCurrency (reducedCost (amount c)
                 (reductionPercentage s t (1 / 2))))) (accommodationCosts ds)"
    if "optimizeAccommodation ds s t = Inr dsA"
    using optimizeAccommodation_Inr [OF that]
    by (simp add: costs_accommodation) (simp add: accommodationCosts_def o_def)
  have T: "transportationCosts dsT
        = map (\<lambda>c. JString (formatCurrency (reducedCost (amount c)
                 (reductionPercentage s t (9 / 20))))) (transportationCosts ds)"
    if "optimizeTransportation ds s t = Inr dsT"
    using optimizeTransportation_Inr [OF that]
    by (simp add: costs_transportation) (simp add: transportationCosts_def o_def)
  have V: "map activity.cost (day.activities (dsV ! i))
        = map (\<lambda>q. JString (formatCurrency
                 (reducedCost (amount (activity.cost (day.activities (ds ! i) ! q)))
                    (adjustedReduction (reductionPercentage s t (4 / 10))
                       (if q = mostExpensive (map (\<lambda>a. amount (activity.cost a))
                                 (day.activities (ds ! i)))
                        then 0 else 1)))))
            [0..<length (day.activities (ds ! i))]"
    if "optimizeActivities ds s t = Inr dsV \<and> i < length ds
        \<and> distinct (map activity.name (day.activities (ds ! i)))"
  proof -
    from that have 1: "optimizeActivities ds s t = Inr dsV" and 2: "i < length ds"
      and 3: "distinct (map activity.name (day.activities (ds ! i)))" by simp_all
    show ?thesis
      unfolding optimizeActivities_distinct [OF 1 2 3]
      by (simp add: reducedActivity_def o_def)
  qed
  have r: "reductionPercentage s t (4 / 10) \<le> 4 / 10" by (rule reductionPercentage_le)
  have B0: "adjustedReduction (reductionPercentage s t (4 / 10)) 0 \<le> 12 / 25"
    using r by (simp add: adjustedReduction_def)
  have B1: "adjustedReduction (reductionPercentage s t (4 / 10)) 1 \<le> 4 / 10"
    using r by (simp add: adjustedReduction_def)
  have C: "c * (1 - cap) \<le> reducedCost c r" if "0 \<le> c \<and> r \<le> cap"
    using that by (simp add: reducedCost_def mult_left_mono)
  from A T V B0 B1 C reductionPercentage_le [of s t cap] show ?thesis by blast
qed

lemma overCap_result:
  "optimizeActivities exampleCapped 150 150 =
     Inr [exampleDay (usd ''$10'') (usd ''$10'')
        [exampleActivity ''Tour'' (usd ''$30.00''), exampleActivity ''Museum'' (usd ''$52.00'')]]"
  by (simp add: example_eval2 optimizer_eval currency_eval)

text \<open>
  The cap of 0.4 does not bound the most expensive activity: with the percentage at its cap
  a cost of 100 becomes 52, below \<open>100 * (1 - 0.4)\<close>.
\<close>

theorem reduction_bounds_counterexample:
  "activityCosts (days exampleOverCap) = [[usd ''$50'', usd ''$100'']]
   \<and> activityCosts (days (optimizeBudget exampleOverCap 20)) = [[usd ''$30.00'', usd ''$52.00'']]
   \<and> reducedCost 100 (adjustedReduction (reductionPercentage 150 150 (4 / 10)) 0) = 52
   \<and> (52::real) < 100 * (1 - 4 / 10)"
proof -
  have "activityCosts (days exampleOverCap) = [[usd ''$50'', usd ''$100'']]"
    by (simp add: example_eval2 optimizer_eval spec_eval)
  moreover have "activityCosts (days (optimizeBudget exampleOverCap 20))
      = [[usd ''$30.00'', usd ''$52.00'']]"
    by (simp add: example_eval2 optimizer_eval currency_eval spec_eval)
  moreover have "reducedCost 100 (adjustedReduction (reductionPercentage 150 150 (4 / 10)) 0) = 52"
    by (simp add: optimizer_eval)
  ultimately show ?thesis by simp
qed

lemma capped_accommodation:
  "optimizeAccommodation exampleCapped 150 150 =
     Inr [exampleDay (usd ''$5.00'') (usd ''$10'')
        [exampleActivity ''Tour'' (usd ''$50''), exampleActivity ''Museum'' (usd ''$100'')]]"
  by (simp add: example_eval2 optimizer_eval currency_eval)

lemma capped_transportation:
  "optimizeTransportation exampleCapped 150 150 =
     Inr [exampleDay (usd ''$10'') (usd ''$5.50'')
        [exampleActivity ''Tour'' (usd ''$50''), exampleActivity ''Museum'' (usd ''$100'')]]"
  by (simp add: example_eval2 optimizer_eval currency_eval)

lemma capped_names: "distinct (map activity.name (day.activities (exampleCapped ! 0)))"
  by (simp add: example_eval2 exampleDay_def exampleActivity_def js_def)

theorem reduction_bounds_witness:
  "optimizeAccommodation exampleCapped 150 150 =
     Inr [exampleDay (usd ''$5.00'') (usd ''$10'')
        [exampleActivity ''Tour'' (usd ''$50''), exampleActivity ''Museum'' (usd ''$100'')]]
   \<and> optimizeTransportation exampleCapped 150 150 =
     Inr [exampleDay (usd ''$10'') (usd ''$5.50'')
        [exampleActivity ''Tour'' (usd ''$50''), exampleActivity ''Museum'' (usd ''$100'')]]
   \<and> optimizeActivities exampleCapped 150 150 =
     Inr [exampleDay (usd ''$10'') (usd ''$10'')
        [exampleActivity ''Tour'' (usd ''$30.00''), exampleActivity ''Museum'' (usd ''$52.00'')]]
   \<and> 0 < length exampleCapped
   \<and> distinct (map activity.name (day.activities (exampleCapped ! 0)))
   \<and> (0::real) \<le> 100 \<and> (1 / 4 :: real) \<le> 1 / 2
   \<and> reductionPercentage 150 150 (1 / 2) = 1 / 2
   \<and> reductionPercentage 150 150 (9 / 20) = 9 / 20
   \<and> reductionPercentage 150 150 (4 / 10) = 4 / 10
   \<and> adjustedReduction (reductionPercentage 150 150 (4 / 10)) 0 = 12 / 25
   \<and> (100::real) * (1 - 1 / 2) \<le> reducedCost 100 (1 / 4)"
proof -
  note b = reduction_bounds [of exampleCapped 150 150
      "[exampleDay (usd ''$5.00'') (usd ''$10'')
        [exampleActivity ''Tour'' (usd ''$50''), exampleActivity ''Museum'' (usd ''$100'')]]"
      "[exampleDay (usd ''$10'') (usd ''$5.50'')
        [exampleActivity ''Tour'' (usd ''$50''), exampleActivity ''Museum'' (usd ''$100'')]]"
      "[exampleDay (usd ''$10'') (usd ''$10'')
        [exampleActivity ''Tour'' (usd ''$30.00''), exampleActivity ''Museum'' (usd ''$52.00'')]]"
      0 "1 / 2" 100 "1 / 4"]
  have l: "0 < length exampleCapped" by (simp add: example_eval2)
  have p: "reductionPercentage 150 150 (1 / 2) = 1 / 2"
    "reductionPercentage 150 150 (9 / 20) = 9 / 20"
    "reductionPercentage 150 150 (4 / 10) = 4 / 10"
    "adjustedReduction (reductionPercentage 150 150 (4 / 10)) 0 = 12 / 25"
    by (simp_all add: reductionPercentage_def adjustedReduction_def)
  from b capped_accommodation capped_transportation overCap_result capped_names l p
  show ?thesis by simp
qed


text \<open>
  Without the hypothesis the postcondition fails: with two activities of one name, both
  writes go to the first of them, and the second keeps its cost.
\<close>

lemma optimizeActivities_duplicate_names:
  "optimizeActivitiesDay (4 / 10) exampleDuplicates =
     Inr (exampleDay (usd ''$10'') (usd ''$10'')
        [exampleActivity ''Tour'' (usd ''$31.20''), exampleActivity ''Tour'' (usd ''$100'')])"
  by (simp add: example_eval2 optimizer_eval currency_eval)

text \<open>
  Both branches at work. With accommodation 0.46 and activities 0.30 and 0.16 the
  accumulated totals are \<open>0.46000000000000002\<close> and \<open>0.45999999999999996\<close>: no tie, and
  the accommodation is halved. With accommodation 100 and one activity of 100 the totals
  tie and the activity is reduced.
\<close>

theorem dominant_category_witness:
  "parseCurrency (totalCost exampleDecimal) = Inr 1 \<and> (1 / 2 :: real) < 1
   \<and> analyzeBudgetAllocation exampleDecimal
       = Inr \<lparr>budgetBreakdown.accommodation = 8286623314361713 / 2 ^ 54,
              activities = 8286623314361712 / 2 ^ 54,
              transportation = 5764607523034235 / 2 ^ 56\<rparr>
   \<and> (8286623314361712 / 2 ^ 54 :: real) < 8286623314361713 / 2 ^ 54
   \<and> (5764607523034235 / 2 ^ 56 :: real) < 8286623314361713 / 2 ^ 54
   \<and> accommodationCosts (days (optimizeBudget exampleDecimal (1 / 2))) = [usd ''$0.23'']
   \<and> activityCosts (days (optimizeBudget exampleDecimal (1 / 2)))
       = activityCosts (days exampleDecimal)
   \<and> transportationCosts (days (optimizeBudget exampleDecimal (1 / 2)))
       = transportationCosts (days exampleDecimal)
   \<and> parseCurrency (totalCost exampleTie) = Inr 210 \<and> (200::real) < 210
   \<and> analyzeBudgetAllocation exampleTie
       = Inr \<lparr>budgetBreakdown.accommodation = 100, activities = 100, transportation = 10\<rparr>
   \<and> \<not> ((100::real) < 100 \<and> (10::real) < 100) \<and> (10::real) < 100
   \<and> optimizeActivities (days exampleTie) (210 - 200) 100
       = Inr [exampleDay (usd ''$100'') (usd ''$10'') [exampleActivity ''Museum'' (usd ''$88.00'')]]
   \<and> activityCosts (days (optimizeBudget exampleTie 200)) = [[usd ''$88.00'']]
   \<and> accommodationCosts (days (optimizeBudget exampleTie 200)) = accommodationCosts (days exampleTie)
   \<and> transportationCosts (days (optimizeBudget exampleTie 200))
       = transportationCosts (days exampleTie)"
proof -
  have h1: "(1 / 2 :: real) < 1" by simp
  have c1: "(8286623314361712 / 2 ^ 54 :: real) < 8286623314361713 / 2 ^ 54"
    and c2: "(5764607523034235 / 2 ^ 56 :: real) < 8286623314361713 / 2 ^ 54" by simp_all
  note e = dominant_category [OF decimal_total h1 decimal_analyze]
  from e c1 c2 decimal_accommodation
  have a: "accommodationCosts (days (optimizeBudget exampleDecimal (1 / 2))) = [usd ''$0.23'']
     \<and> activityCosts (days (optimizeBudget exampleDecimal (1 / 2)))
         = activityCosts (days exampleDecimal)
     \<and> transportationCosts (days (optimizeBudget exampleDecimal (1 / 2)))
         = transportationCosts (days exampleDecimal)"
    by (simp add: accommodationCosts_def exampleDay_def)
  have h2: "(200::real) < 210" by simp
  note d = dominant_category [OF tie_total h2 tie_analyze]
  have o: "optimizeActivities (days exampleTie) (210 - 200) 100
       = Inr [exampleDay (usd ''$100'') (usd ''$10'') [exampleActivity ''Museum'' (usd ''$88.00'')]]"
    by (simp add: example_eval2 optimizer_eval currency_eval)
  from d o have t: "activityCosts (days (optimizeBudget exampleTie 200)) = [[usd ''$88.00'']]
     \<and> accommodationCosts (days (optimizeBudget exampleTie 200)) = accommodationCosts (days exampleTie)
     \<and> transportationCosts (days (optimizeBudget exampleTie 200))
         = transportationCosts (days exampleTie)"
    by (simp add: activityCosts_def exampleDay_def exampleActivity_def)
  from a t o h1 h2 c1 c2 decimal_total decimal_analyze tie_total tie_analyze show ?thesis
    by simp
qed

text \<open>
  Claim C3 (no-op within budget): when the parsed \<open>totalCost\<close> is at most the budget,
  \<open>optimizeBudget\<close> returns its argument: the same total, the same days and costs, and
  no \<open>alternativeActivities\<close> beyond what the argument had.
\<close>

theorem optimizeBudget_within_budget:
  assumes "parseCurrency (totalCost it) = Inr currentCost" and "currentCost \<le> totalBudget"
  shows "optimizeBudget it totalBudget = it"
  using assms by (simp add: optimizeBudget_def optimizeBudgetTry_def)

theorem optimizeBudget_within_budget_witness:
  "parseCurrency (totalCost exampleWithin) = Inr 100 \<and> (100::real) \<le> 200
   \<and> optimizeBudget exampleWithin 200 = exampleWithin"
proof -
  have p: "parseCurrency (totalCost exampleWithin) = Inr 100"
    by (simp add: exampleWithin_def exampleItinerary_def usd_def currency_eval)
  have b: "(100::real) \<le> 200" by simp
  show ?thesis using p b optimizeBudget_within_budget [OF p b] by simp
qed

section \<open>Proofs: the weather generator\<close>

lemmas weather_eval =
  generateMockWeatherData_def weatherMaxTemp_def rainChance_def classify_def mathRound_def
  locationHash_def toLowerCase_def seasonalTemp_def windSpeed_def humidityOf_def descriptions_def
  exampleJune_def js_def Let_def isHighSurrogate_def isLowSurrogate_def

lemma oslo_hash: "locationHash (js ''Oslo'') = 445"
  by (simp add: locationHash_def toLowerCase_def js_def isHighSurrogate_def isLowSurrogate_def)

lemma oslo_chance_70: "rainChance (\<lambda>k. 13 / 32) (js ''Oslo'') = 70"
  by (simp add: rainChance_def oslo_hash mathRound_def)

lemma oslo_chance_97: "rainChance (\<lambda>k. 15 / 16) (js ''Oslo'') = 97"
  by (simp add: rainChance_def oslo_hash mathRound_def)

lemma classify_not_rainy: "chance \<le> 70 \<Longrightarrow> classify chance maxT =
   (if chance > 40 then Cloudy else if chance > 20 then PartlyCloudy else Sunny)"
  by (simp add: classify_def)

lemma weatherMaxTemp_ge: "2 \<le> weatherMaxTemp loc d"
proof -
  have s: "- 8 \<le> seasonalTemp (getMonth d)" by (simp add: seasonalTemp_def)
  have g: "0 \<le> (x + 1) * 3" if "- 1 \<le> x" for x :: real
    using that by simp
  have v: "0 \<le> (sin (real (getDate d * locationHash loc)) + 1) * 3"
    by (rule g [OF sin_ge_minus_one])
  have b: "(10::real) \<le> real (10 + locationHash loc mod 25)" by simp
  have h: "(2::real) + 1 / 2 \<le> x + y + z + 1 / 2" if "10 \<le> x" "- 8 \<le> y" "0 \<le> z"
    for x y z :: real
    using that by simp
  have "(2::real) + 1 / 2 \<le> real (10 + locationHash loc mod 25) + seasonalTemp (getMonth d)
       + (sin (real (getDate d * locationHash loc)) + 1) * 3 + 1 / 2"
    by (rule h [OF b s v])
  then have "2 \<le> \<lfloor>real (10 + locationHash loc mod 25) + seasonalTemp (getMonth d)
       + (sin (real (getDate d * locationHash loc)) + 1) * 3 + 1 / 2\<rfloor>"
    by (simp add: le_floor_iff)
  then show ?thesis by (simp add: weatherMaxTemp_def mathRound_def)
qed

lemma classify_warm:
  "2 \<le> maxT \<Longrightarrow> classify chance maxT =
     (if chance > 70 then Rainy else if chance > 40 then Cloudy
      else if chance > 20 then PartlyCloudy else Sunny)"
  by (simp add: classify_def)

text \<open>
  Claim C9 (weather classification), as amended. The thresholds are exclusive: the condition
  is rainy when \<open>precipitation_chance\<close> is above 70, cloudy when above 40 (so at exactly 70),
  partly cloudy when above 20, sunny otherwise. The classification turns rainy into snowy
  for a maximum temperature below 2, but the generator's maximum temperature is never
  below 2, so no forecast is snowy.
\<close>

theorem weather_classification:
  "condition (generateMockWeatherData rnd loc d) =
     (if precipitation_chance (generateMockWeatherData rnd loc d) > 70 then Rainy
      else if precipitation_chance (generateMockWeatherData rnd loc d) > 40 then Cloudy
      else if precipitation_chance (generateMockWeatherData rnd loc d) > 20 then PartlyCloudy
      else Sunny)
   \<and> 2 \<le> maxTemp (forecast.temperature (generateMockWeatherData rnd loc d))
   \<and> condition (generateMockWeatherData rnd loc d) \<noteq> Snowy
   \<and> classify 70 t = Cloudy
   \<and> classify 71 1 = Snowy"
proof -
  have c: "condition (generateMockWeatherData rnd loc d)
           = classify (rainChance rnd loc) (weatherMaxTemp loc d)"
    and p: "precipitation_chance (generateMockWeatherData rnd loc d) = rainChance rnd loc"
    and m: "maxTemp (forecast.temperature (generateMockWeatherData rnd loc d)) = weatherMaxTemp loc d"
    by (simp_all add: generateMockWeatherData_def Let_def)
  have w: "classify (rainChance rnd loc) (weatherMaxTemp loc d) =
     (if rainChance rnd loc > 70 then Rainy else if rainChance rnd loc > 40 then Cloudy
      else if rainChance rnd loc > 20 then PartlyCloudy else Sunny)"
    by (rule classify_warm [OF weatherMaxTemp_ge])
  have "classify 70 t = Cloudy" "classify 71 1 = Snowy" by (simp_all add: classify_def)
  with c p m w weatherMaxTemp_ge [of loc d] show ?thesis by simp
qed

theorem weather_classification_witness:
  "precipitation_chance (generateMockWeatherData (\<lambda>k. 15 / 16) (js ''Oslo'') exampleJune) = 97
   \<and> condition (generateMockWeatherData (\<lambda>k. 15 / 16) (js ''Oslo'') exampleJune) = Rainy"
proof -
  have p: "precipitation_chance (generateMockWeatherData (\<lambda>k. 15 / 16) (js ''Oslo'') exampleJune) = 97"
    by (simp add: generateMockWeatherData_def Let_def oslo_chance_97)
  from weather_classification [of "\<lambda>k. 15 / 16" "js ''Oslo''" exampleJune] p
  show ?thesis by simp
qed

text \<open>
  A rain chance of exactly 70 is classified cloudy: Oslo (hash 445, rainfall factor 0.5)
  with a third draw of 13/32 (0.40625).
\<close>

theorem weather_classification_counterexample:
  "precipitation_chance (generateMockWeatherData (\<lambda>k. 13 / 32) (js ''Oslo'') exampleJune) = 70
   \<and> condition (generateMockWeatherData (\<lambda>k. 13 / 32) (js ''Oslo'') exampleJune) = Cloudy"
  by (simp add: generateMockWeatherData_def Let_def oslo_chance_70 classify_not_rainy)







section \<open>Proofs: the inventory generators\<close>

lemma unreserved_not_surrogate:
  "uriUnreserved c \<Longrightarrow> \<not> isHighSurrogate c \<and> \<not> isLowSurrogate c"
  by (auto simp: uriUnreserved_def isHighSurrogate_def isLowSurrogate_def)

lemma surrogates_disjoint: "isHighSurrogate c \<Longrightarrow> \<not> isLowSurrogate c"
  by (simp add: isHighSurrogate_def isLowSurrogate_def)

lemma encodeURIComponent_wellFormed:
  "wellFormed s \<Longrightarrow> \<exists>t. encodeURIComponent s = Inr t"
proof (induction s rule: wellFormed.induct)
  case 1
  then show ?case by simp
next
  case (2 c)
  then show ?case by simp
next
  case (3 c d r)
  show ?case
  proof (cases "isHighSurrogate c")
    case True
    with 3 obtain t where "isLowSurrogate d" "encodeURIComponent r = Inr t" by auto
    with True show ?thesis
      using unreserved_not_surrogate [of c] surrogates_disjoint [of c] by auto
  next
    case False
    with 3 obtain t where "\<not> isLowSurrogate c" "encodeURIComponent (d # r) = Inr t" by auto
    with False show ?thesis by simp
  qed
qed

lemma encodeURIComponent_malformed:
  "\<not> wellFormed s \<Longrightarrow> encodeURIComponent s = Inl URIError"
proof (induction s rule: wellFormed.induct)
  case 1
  then show ?case by simp
next
  case (2 c)
  then show ?case
    using unreserved_not_surrogate [of c] by auto
next
  case (3 c d r)
  show ?case
  proof (cases "isHighSurrogate c")
    case True
    then have nu: "\<not> uriUnreserved c" "\<not> isLowSurrogate c"
      using unreserved_not_surrogate [of c] surrogates_disjoint [of c] by auto
    show ?thesis
    proof (cases "isLowSurrogate d")
      case low: True
      with 3 True have "encodeURIComponent r = Inl URIError" by auto
      with True nu low show ?thesis by simp
    next
      case False
      with True nu show ?thesis by simp
    qed
  next
    case False
    show ?thesis
    proof (cases "isLowSurrogate c")
      case True
      then have "\<not> uriUnreserved c" using unreserved_not_surrogate [of c] by auto
      with True show ?thesis by simp
    next
      case low: False
      with 3 False have "encodeURIComponent (d # r) = Inl URIError" by auto
      with False low show ?thesis by simp
    qed
  qed
qed

lemma forEachE_const_Inl: "xs \<noteq> [] \<Longrightarrow> forEachE (\<lambda>i. Inl e) xs = Inl e"
  by (cases xs) auto

lemma forEachE_const_Inr: "forEachE (\<lambda>i. Inr v) xs = Inr (map (\<lambda>i. v) xs)"
  by (induction xs) auto

lemma searchHotels_eq:
  "searchHotels build dest checkIn checkOut guests accType =
     Inr (if wellFormed (cityOf dest) then build dest checkIn checkOut guests accType else [])"
proof (cases "wellFormed (cityOf dest)")
  case True
  then obtain t where "encodeURIComponent (cityOf dest) = Inr t"
    using encodeURIComponent_wellFormed by blast
  with True show ?thesis
    by (simp add: searchHotels_def searchHotelsTry_def Let_def forEachE_const_Inr)
next
  case False
  then have "encodeURIComponent (cityOf dest) = Inl URIError"
    by (rule encodeURIComponent_malformed)
  with False show ?thesis
    by (simp add: searchHotels_def searchHotelsTry_def Let_def forEachE_const_Inl)
qed

lemma findActivities_eq:
  "findActivities build dest ints tripDuration =
     Inr (if wellFormed (cityOf dest) \<or> activityCalls ints tripDuration = 0
          then build dest ints tripDuration else [])"
proof (cases "wellFormed (cityOf dest)")
  case True
  then obtain t where "encodeURIComponent (cityOf dest) = Inr t"
    using encodeURIComponent_wellFormed by blast
  with True show ?thesis
    by (simp add: findActivities_def findActivitiesTry_def forEachE_const_Inr)
next
  case False
  then have "encodeURIComponent (cityOf dest) = Inl URIError"
    by (rule encodeURIComponent_malformed)
  with False show ?thesis
    by (cases "activityCalls ints tripDuration = 0")
       (simp_all add: findActivities_def findActivitiesTry_def forEachE_const_Inl)
qed

lemma getMapData_eq:
  "getMapData build dest =
     (if wellFormed dest then Inr (build dest)
      else Inl (Error (js ''Failed to fetch map data for destination'')))"
proof (cases "wellFormed dest")
  case True
  then obtain t where "encodeURIComponent dest = Inr t"
    using encodeURIComponent_wellFormed by blast
  with True show ?thesis
    by (simp add: getMapData_def getMapDataTry_def forEachE_const_Inr)
next
  case False
  then have "encodeURIComponent dest = Inl URIError"
    by (rule encodeURIComponent_malformed)
  with False show ?thesis
    by (simp add: getMapData_def getMapDataTry_def)
qed

lemma searchFlights_Inr:
  "\<exists>flights. searchFlights parseDate isoText build dest departDate returnDate passengers
     = Inr flights"
  by (simp add: searchFlights_def split: sum.splits)

lemma searchFlights_invalid:
  assumes "parseDate departDate = None \<or> parseDate returnDate = None"
  shows "searchFlights parseDate isoText build dest departDate returnDate passengers = Inr []"
proof -
  have inv: "generateFlights isoText a b None = Inl RangeError" for a b
    by (simp add: generateFlights_def toISOString_def)
  have "\<exists>e. searchFlightsTry parseDate isoText build dest departDate returnDate passengers = Inl e"
    using assms by (auto simp: searchFlightsTry_def inv split: sum.splits)
  then show ?thesis by (auto simp: searchFlights_def)
qed

text \<open>
  Claim C6 (soft failure), as amended. The hotel, activity and flight searches never throw:
  when their body throws they return the empty array. For the hotel and the activity
  search the body throws exactly when the city has a lone surrogate (and, for activities,
  at least one activity is generated); for the flight search it throws in particular when a
  date is invalid. \<open>getMapData\<close> does not fail soft: when its body throws (exactly
  when the destination has a lone surrogate) it throws an \<open>Error\<close> to its caller.
\<close>

theorem generators_fail_soft:
  "searchHotels buildHotels dest checkIn checkOut guests accType =
     Inr (if wellFormed (cityOf dest) then buildHotels dest checkIn checkOut guests accType else [])
   \<and> findActivities buildActivities dest ints tripDuration =
     Inr (if wellFormed (cityOf dest) \<or> activityCalls ints tripDuration = 0
          then buildActivities dest ints tripDuration else [])
   \<and> (\<exists>flights. searchFlights parseDate isoText buildFlights dest departDate returnDate passengers
         = Inr flights)
   \<and> (searchFlightsTry parseDate isoText buildFlights dest departDate returnDate passengers = Inl e
        \<longrightarrow> searchFlights parseDate isoText buildFlights dest departDate returnDate passengers
            = Inr [])
   \<and> (parseDate departDate = None \<or> parseDate returnDate = None
        \<longrightarrow> searchFlights parseDate isoText buildFlights dest departDate returnDate passengers
            = Inr [])
   \<and> getMapData buildMap dest =
     (if wellFormed dest then Inr (buildMap dest)
      else Inl (Error (js ''Failed to fetch map data for destination'')))"
proof (intro conjI impI)
  show "searchHotels buildHotels dest checkIn checkOut guests accType =
     Inr (if wellFormed (cityOf dest) then buildHotels dest checkIn checkOut guests accType else [])"
    by (rule searchHotels_eq)
  show "findActivities buildActivities dest ints tripDuration =
     Inr (if wellFormed (cityOf dest) \<or> activityCalls ints tripDuration = 0
          then buildActivities dest ints tripDuration else [])"
    by (rule findActivities_eq)
  show "\<exists>flights. searchFlights parseDate isoText buildFlights dest departDate returnDate passengers
         = Inr flights"
    by (rule searchFlights_Inr)
  show "searchFlights parseDate isoText buildFlights dest departDate returnDate passengers = Inr []"
    if "searchFlightsTry parseDate isoText buildFlights dest departDate returnDate passengers = Inl e"
    using that by (simp add: searchFlights_def)
  show "searchFlights parseDate isoText buildFlights dest departDate returnDate passengers = Inr []"
    if "parseDate departDate = None \<or> parseDate returnDate = None"
    using that by (rule searchFlights_invalid)
  show "getMapData buildMap dest =
     (if wellFormed dest then Inr (buildMap dest)
      else Inl (Error (js ''Failed to fetch map data for destination'')))"
    by (rule getMapData_eq)
qed

lemma lone_city: "cityOf exampleLoneSurrogate = [55296]"
  by (simp add: cityOf_def exampleLoneSurrogate_def js_def trim_def isWhiteSpace_def)

lemma lone_malformed: "\<not> wellFormed [55296]" "\<not> wellFormed exampleLoneSurrogate"
  by (simp_all add: exampleLoneSurrogate_def js_def isHighSurrogate_def isLowSurrogate_def)

text \<open>
  The map data generator propagates: for a destination with a lone surrogate the result is
  an exception, not an empty sequence.
\<close>

theorem generators_fail_soft_counterexample:
  "getMapData (\<lambda>dest. [dest]) exampleLoneSurrogate
     = Inl (Error (js ''Failed to fetch map data for destination''))"
  by (simp add: getMapData_eq lone_malformed)

lemma activityCalls_nonneg:
  assumes "0 \<le> tripDuration"
  shows "activityCalls ints tripDuration = nat (min 50 (tripDuration * 4 + 10))"
proof -
  define userInterests where "userInterests =
     (if length ints > 0 then ints else [js ''history'', js ''food'', js ''culture'', js ''nature''])"
  define matched where "matched =
     length (filter (\<lambda>interest. matchingCategories (toLowerCase interest) \<noteq> [])
               (take 8 userInterests))"
  have "matched \<le> length (take 8 userInterests)"
    unfolding matched_def by (rule length_filter_le)
  then have m: "matched \<le> 8" by simp
  have c: "activityCalls ints tripDuration
           = matched + nat (min 50 (tripDuration * 4 + 10) - int matched)"
    by (simp add: activityCalls_def Let_def matched_def userInterests_def)
  from assms m show ?thesis unfolding c by simp
qed

lemma default_calls: "activityCalls [] 3 = 22"
  by (simp add: activityCalls_nonneg)

theorem generators_fail_soft_witness:
  "\<not> wellFormed (cityOf exampleLoneSurrogate) \<and> activityCalls [] 3 = 22
   \<and> exampleParseDate (js ''tomorrow'') = None
   \<and> searchHotels (\<lambda>dest checkIn checkOut guests accType. [dest])
        exampleLoneSurrogate (js ''2025-06-01'') (js ''2025-06-04'') 2 (js ''hotel'') = Inr []
   \<and> findActivities (\<lambda>dest ints tripDuration. [dest]) exampleLoneSurrogate [] 3
        = Inr []
   \<and> searchFlights exampleParseDate (\<lambda>t. js ''2025-06-01T00:00:00.000Z'')
        (\<lambda>dest departDate returnDate passengers. [dest])
        (js ''Oslo, Norway'') (js ''tomorrow'') (js ''2025-06-01'') 2 = Inr []
   \<and> getMapData (\<lambda>dest. [dest]) (js ''Oslo, Norway'')
        = Inr [js ''Oslo, Norway'']"
proof -
  note g = generators_fail_soft [where buildHotels = "\<lambda>dest checkIn checkOut guests accType. [dest]"
      and dest = exampleLoneSurrogate and checkIn = "js ''2025-06-01''"
      and checkOut = "js ''2025-06-04''" and guests = 2 and accType = "js ''hotel''"
      and buildActivities = "\<lambda>dest ints tripDuration. [dest]" and ints = "[]"
      and tripDuration = 3 and parseDate = exampleParseDate
      and isoText = "\<lambda>t. js ''2025-06-01T00:00:00.000Z''"
      and buildFlights = "\<lambda>dest departDate returnDate passengers. [dest]"
      and departDate = "js ''tomorrow''"
      and returnDate = "js ''2025-06-01''" and passengers = 2
      and buildMap = "\<lambda>dest. [dest]" and e = RangeError]
  note f = generators_fail_soft [where parseDate = exampleParseDate
      and isoText = "\<lambda>t. js ''2025-06-01T00:00:00.000Z''"
      and buildFlights = "\<lambda>dest departDate returnDate passengers. [dest]"
      and dest = "js ''Oslo, Norway''" and departDate = "js ''tomorrow''"
      and returnDate = "js ''2025-06-01''" and passengers = 2
      and buildMap = "\<lambda>dest. [dest]" and e = RangeError
      and buildHotels = "\<lambda>dest checkIn checkOut guests accType. [dest]"
      and checkIn = "js ''2025-06-01''"
      and checkOut = "js ''2025-06-04''" and guests = 2 and accType = "js ''hotel''"
      and buildActivities = "\<lambda>dest ints tripDuration. [dest]" and ints = "[]"
      and tripDuration = 3]
  have p: "exampleParseDate (js ''tomorrow'') = None"
    by (simp add: exampleParseDate_def js_def)
  have w: "wellFormed (js ''Oslo, Norway'')"
    by (simp add: js_def isHighSurrogate_def isLowSurrogate_def)
  have m: "\<not> wellFormed (cityOf exampleLoneSurrogate)"
    unfolding lone_city by (rule lone_malformed(1))
  have hot: "searchHotels (\<lambda>dest checkIn checkOut guests accType. [dest])
        exampleLoneSurrogate (js ''2025-06-01'') (js ''2025-06-04'') 2 (js ''hotel'') = Inr []"
    using g m by simp
  have act: "findActivities (\<lambda>dest ints tripDuration. [dest]) exampleLoneSurrogate [] 3 = Inr []"
    using g m default_calls by simp
  have fl: "searchFlights exampleParseDate (\<lambda>t. js ''2025-06-01T00:00:00.000Z'')
        (\<lambda>dest departDate returnDate passengers. [dest])
        (js ''Oslo, Norway'') (js ''tomorrow'') (js ''2025-06-01'') 2 = Inr []"
    using f p by blast
  have mp: "getMapData (\<lambda>dest. [dest]) (js ''Oslo, Norway'') = Inr [js ''Oslo, Norway'']"
    using f w by simp
  from hot act fl mp p m default_calls show ?thesis by simp
qed






end
